theory Spec2Isabelle
  imports Main "HOL-Library.Word" "HOL-Library.Finite_Map" "HOL-Library.Sublist"
    "HOL-Library.List_Lexorder" "HOL-Library.Char_ord"
begin

section \<open>The shipper of \<^verbatim>\<open>pkg/shipper/shipper.go\<close>\<close>

text \<open>
  The shipper scans a local directory for TSDB blocks, uploads those that the remote
  bucket does not hold yet, and remembers the uploaded block IDs in the file
  \<^verbatim>\<open>thanos.shipper.json\<close>. The Go code works on three pieces of outside state: the local
  file system, the bucket, and the logger. The model threads all three through every
  function as one record \<open>world\<close>; an error return of Go is the \<open>Inl\<close> of a sum.
\<close>

subsection \<open>Data\<close>

text \<open>A path is the list of its components; \<^verbatim>\<open>filepath.Join\<close> is list append.\<close>

type_synonym path = "string list"

text \<open>\<^verbatim>\<open>ulid.ULID\<close> is \<^verbatim>\<open>[16]byte\<close>; \<^verbatim>\<open>int64\<close> is a 64-bit word read as two's complement.\<close>

type_synonym ulid = "128 word"
type_synonym int64 = "64 word"

definition MaxInt64 :: int64 where
  "MaxInt64 = 9223372036854775807"

definition MinInt64 :: int64 where
  "MinInt64 = - 9223372036854775808"

text \<open>\<^verbatim>\<open>type Meta struct { Version int; Uploaded []ulid.ULID }\<close>\<close>

record Meta =
  Version :: int
  Uploaded :: "ulid list"

text \<open>
  The fields of \<^verbatim>\<open>block.Meta\<close> that the shipper reads or writes: \<^verbatim>\<open>ULID\<close>, \<^verbatim>\<open>MinTime\<close>,
  \<^verbatim>\<open>MaxTime\<close>, \<^verbatim>\<open>Compaction.Level\<close>, \<^verbatim>\<open>Thanos.Labels\<close> and \<^verbatim>\<open>Thanos.Source\<close>.
\<close>

record BlockMeta =
  ULID :: ulid
  MinTime :: int64
  MaxTime :: int64
  Compaction_Level :: int
  Thanos_Labels :: "(string \<times> string) list"
  Thanos_Source :: string

text \<open>
  File contents are kept up to what \<^verbatim>\<open>encoding/json\<close> makes of them: the bytes that
  \<^verbatim>\<open>json.Encoder\<close> writes for a shipper \<open>Meta\<close>, those it writes for a block meta, any other
  bytes, and \<open>Partial c\<close>, a proper prefix of the bytes of \<open>c\<close> as an interrupted write
  leaves it.
\<close>

datatype content =
    Bytes string
  | MetaJSON Meta
  | BlockMetaJSON BlockMeta
  | Partial content

datatype node = File content | Dir

datatype error =
    ENOENT | ENOTDIR | EISDIR | EEXIST | EPERM | EIO
  | ErrBucket
  | ErrSyntax
  | ErrVersion int
  | Wrap string error

datatype level = Info | Warn | Error

text \<open>A log line: level, the \<^verbatim>\<open>msg\<close> value, the \<^verbatim>\<open>block\<close> or \<^verbatim>\<open>id\<close> value and the \<^verbatim>\<open>err\<close> value.\<close>

datatype logline = Log level string "ulid option" "error option"

text \<open>A call on the bucket, with the object name; an upload carries the bytes and whether it succeeded.\<close>

datatype call = CallExists path | CallUpload path content bool

text \<open>
  \<open>files\<close> is the local file system and \<open>objects\<close> the bucket. \<open>calls\<close> lists the calls made
  on the bucket and \<open>logged\<close> the log lines, oldest first. \<open>faults\<close> decides the I/O errors
  that do not follow from the state: every call that leaves the process (a system call,
  a bucket request) takes the head of the list and fails when it is \<open>True\<close>; an empty list
  means that no such error happens any more.
\<close>

record world =
  files :: "(path, node) fmap"
  objects :: "(path, content) fmap"
  calls :: "call list"
  logged :: "logline list"
  faults :: "bool list"

text \<open>
  What the shipper takes from the packages \<^verbatim>\<open>block\<close> and \<^verbatim>\<open>ulid\<close>, whose sources are not
  part of \<^verbatim>\<open>shipper.go\<close>: the test \<^verbatim>\<open>block.IsBlockDir\<close> of a directory name, the text
  \<^verbatim>\<open>ULID.String()\<close> of an ID, and the three file names of a block directory. They are
  parameters of the model.
\<close>

record deps =
  IsBlockDir :: "string \<Rightarrow> ulid option"
  ULID_String :: "ulid \<Rightarrow> string"
  block_MetaFilename :: string
  block_IndexFilename :: string
  block_ChunksDirname :: string

text \<open>
  \<^verbatim>\<open>type Shipper struct\<close>: logger and bucket are in the \<open>world\<close>, the metrics are never
  incremented by this file; \<open>labels\<close> is what the labels getter returns (\<open>None\<close> for nil).
\<close>

record Shipper =
  dir :: path
  labels :: "(string \<times> string) list option"
  source :: string

subsection \<open>Sequencing\<close>

type_synonym 'a io = "world \<Rightarrow> (error + 'a) \<times> world"

definition io_return :: "'a \<Rightarrow> 'a io" where
  "io_return x w = (Inr x, w)"

definition io_fail :: "error \<Rightarrow> 'a io" where
  "io_fail e w = (Inl e, w)"

definition io_bind :: "'a io \<Rightarrow> ('a \<Rightarrow> 'b io) \<Rightarrow> 'b io" where
  "io_bind m f w = (case m w of (Inl e, w') \<Rightarrow> (Inl e, w') | (Inr x, w') \<Rightarrow> f x w')"

text \<open>\<^verbatim>\<open>if err != nil { return errors.Wrap(err, msg) }\<close>\<close>

definition wrap :: "string \<Rightarrow> 'a io \<Rightarrow> 'a io" where
  "wrap msg m w = (case m w of (Inl e, w') \<Rightarrow> (Inl (Wrap msg e), w') | (Inr x, w') \<Rightarrow> (Inr x, w'))"

definition log :: "logline \<Rightarrow> world \<Rightarrow> world" where
  "log l w = w\<lparr>logged := logged w @ [l]\<rparr>"

definition fault :: "world \<Rightarrow> bool \<times> world" where
  "fault w = (case faults w of [] \<Rightarrow> (False, w) | b # bs \<Rightarrow> (b, w\<lparr>faults := bs\<rparr>))"

text \<open>A system call: it fails with \<open>EIO\<close> when the fault list says so, and runs otherwise.\<close>

definition syscall :: "'a io \<Rightarrow> 'a io" where
  "syscall f w = (case fault w of (True, w') \<Rightarrow> (Inl EIO, w') | (False, w') \<Rightarrow> f w')"

subsection \<open>The file system calls\<close>

definition is_file :: "node option \<Rightarrow> bool" where
  "is_file n = (case n of Some (File _) \<Rightarrow> True | _ \<Rightarrow> False)"

text \<open>
  The error of a path that is not there: \<open>ENOTDIR\<close> when a component on the way to it is a
  regular file, \<open>ENOENT\<close> otherwise.
\<close>

definition missing :: "(path, node) fmap \<Rightarrow> path \<Rightarrow> error" where
  "missing fs p =
     (if list_ex (\<lambda>q. is_file (fmlookup fs q)) (butlast (prefixes p)) then ENOTDIR else ENOENT)"

definition os_ReadFile :: "path \<Rightarrow> content io" where
  "os_ReadFile p = syscall (\<lambda>w.
     case fmlookup (files w) p of
       None \<Rightarrow> (Inl (missing (files w) p), w)
     | Some Dir \<Rightarrow> (Inl EISDIR, w)
     | Some (File c) \<Rightarrow> (Inr c, w))"

definition os_Stat :: "path \<Rightarrow> node io" where
  "os_Stat p = syscall (\<lambda>w.
     case fmlookup (files w) p of
       None \<Rightarrow> (Inl (missing (files w) p), w)
     | Some n \<Rightarrow> (Inr n, w))"

definition IsDir :: "node \<Rightarrow> bool" where
  "IsDir n = (n = Dir)"

text \<open>The names of the entries of directory \<open>p\<close>, sorted as \<^verbatim>\<open>fileutil.ReadDir\<close> returns them.\<close>

definition children :: "(path, node) fmap \<Rightarrow> path \<Rightarrow> string list" where
  "children fs p =
     sorted_list_of_fset (last |`| ffilter (\<lambda>q. q \<noteq> [] \<and> butlast q = p) (fmdom fs))"

definition fileutil_ReadDir :: "path \<Rightarrow> string list io" where
  "fileutil_ReadDir p = syscall (\<lambda>w.
     case fmlookup (files w) p of
       None \<Rightarrow> (Inl (missing (files w) p), w)
     | Some (File _) \<Rightarrow> (Inl ENOTDIR, w)
     | Some Dir \<Rightarrow> (Inr (children (files w) p), w))"

text \<open>\<^verbatim>\<open>os.RemoveAll\<close> removes the path and everything below it; a missing path is no error.\<close>

definition os_RemoveAll :: "path \<Rightarrow> unit io" where
  "os_RemoveAll p = syscall (\<lambda>w.
     (Inr (), w\<lparr>files := fmfilter (\<lambda>q. \<not> prefix p q) (files w)\<rparr>))"

text \<open>\<^verbatim>\<open>os.MkdirAll\<close> creates the directory and its missing parents.\<close>

definition os_MkdirAll :: "path \<Rightarrow> unit io" where
  "os_MkdirAll p = syscall (\<lambda>w.
     if list_ex (\<lambda>q. is_file (fmlookup (files w) q)) (prefixes p) then (Inl ENOTDIR, w)
     else (Inr (), w\<lparr>files := fold (\<lambda>q fs. fmupd q Dir fs) (prefixes p) (files w)\<rparr>))"

text \<open>\<^verbatim>\<open>os.Link\<close>: a second name for the same file, here with the same content.\<close>

definition os_Link :: "path \<Rightarrow> path \<Rightarrow> unit io" where
  "os_Link src dst = syscall (\<lambda>w.
     case fmlookup (files w) src of
       None \<Rightarrow> (Inl (missing (files w) src), w)
     | Some Dir \<Rightarrow> (Inl EPERM, w)
     | Some (File c) \<Rightarrow>
         if fmlookup (files w) dst \<noteq> None then (Inl EEXIST, w)
         else if fmlookup (files w) (butlast dst) \<noteq> Some Dir
         then (Inl (missing (files w) dst), w)
         else (Inr (), w\<lparr>files := fmupd dst (File c) (files w)\<rparr>))"

text \<open>\<^verbatim>\<open>os.Create\<close> creates or truncates the file; the handle it returns is the path.\<close>

definition os_Create :: "path \<Rightarrow> path io" where
  "os_Create p = syscall (\<lambda>w.
     if fmlookup (files w) (butlast p) \<noteq> Some Dir then (Inl (missing (files w) p), w)
     else if fmlookup (files w) p = Some Dir then (Inl EISDIR, w)
     else (Inr p, w\<lparr>files := fmupd p (File (Bytes [])) (files w)\<rparr>))"

text \<open>
  \<^verbatim>\<open>enc.Encode(v)\<close> on a file handle: one write of the encoded bytes. A write that fails
  leaves a proper prefix of them in the file.
\<close>

definition json_Encode :: "path \<Rightarrow> content \<Rightarrow> unit io" where
  "json_Encode f c w =
     (case fault w of
        (True, w') \<Rightarrow> (Inl EIO, w'\<lparr>files := fmupd f (File (Partial c)) (files w')\<rparr>)
      | (False, w') \<Rightarrow> (Inr (), w'\<lparr>files := fmupd f (File c) (files w')\<rparr>))"

definition file_Close :: "path \<Rightarrow> unit io" where
  "file_Close f = syscall (\<lambda>w. (Inr (), w))"

text \<open>
  Modelled from the spec: \<^verbatim>\<open>runutil.CloseWithLogOnErr\<close> is missing from the sources. The spec
  has the failures that are not returned "logged": the handle is closed, and an error of
  the close is logged as a warning.
\<close>

definition runutil_CloseWithLogOnErr :: "path \<Rightarrow> string \<Rightarrow> world \<Rightarrow> world" where
  "runutil_CloseWithLogOnErr f msg w =
     (case file_Close f w of
        (Inl e, w') \<Rightarrow> log (Log Warn msg None (Some e)) w'
      | (Inr _, w') \<Rightarrow> w')"

text \<open>
  \<^verbatim>\<open>os.Rename\<close> of a regular file: the name \<open>to\<close> takes the file, the name \<open>from\<close> is gone.
  The shipper only renames the file that \<^verbatim>\<open>os.Create\<close> has just made; for a directory as
  source the model reports \<open>EPERM\<close>.
\<close>

definition os_Rename :: "path \<Rightarrow> path \<Rightarrow> unit io" where
  "os_Rename from to = syscall (\<lambda>w.
     case fmlookup (files w) from of
       None \<Rightarrow> (Inl (missing (files w) from), w)
     | Some Dir \<Rightarrow> (Inl EPERM, w)
     | Some (File c) \<Rightarrow>
         if fmlookup (files w) to = Some Dir then (Inl EISDIR, w)
         else if fmlookup (files w) (butlast to) \<noteq> Some Dir
         then (Inl (missing (files w) to), w)
         else (Inr (), w\<lparr>files := fmupd to (File c) (fmdrop from (files w))\<rparr>))"

definition fileutil_OpenDir :: "path \<Rightarrow> path io" where
  "fileutil_OpenDir p = syscall (\<lambda>w.
     case fmlookup (files w) p of
       None \<Rightarrow> (Inl (missing (files w) p), w)
     | Some (File _) \<Rightarrow> (Inl ENOTDIR, w)
     | Some Dir \<Rightarrow> (Inr p, w))"

definition fileutil_Fsync :: "path \<Rightarrow> unit io" where
  "fileutil_Fsync d = syscall (\<lambda>w. (Inr (), w))"

subsection \<open>The bucket\<close>

definition bucket_Exists :: "path \<Rightarrow> bool io" where
  "bucket_Exists name w =
     (case fault w of
        (True, w') \<Rightarrow> (Inl ErrBucket, w'\<lparr>calls := calls w' @ [CallExists name]\<rparr>)
      | (False, w') \<Rightarrow>
          (Inr (name |\<in>| fmdom (objects w')), w'\<lparr>calls := calls w' @ [CallExists name]\<rparr>))"

definition bucket_Upload :: "path \<Rightarrow> content \<Rightarrow> unit io" where
  "bucket_Upload name c w =
     (case fault w of
        (True, w') \<Rightarrow> (Inl ErrBucket, w'\<lparr>calls := calls w' @ [CallUpload name c False]\<rparr>)
      | (False, w') \<Rightarrow>
          (Inr (), w'\<lparr>objects := fmupd name c (objects w'),
                      calls := calls w' @ [CallUpload name c True]\<rparr>))"

subsection \<open>The bookkeeping file\<close>

definition MetaFilename :: string where
  "MetaFilename = ''thanos.shipper.json''"

definition json_Unmarshal_Meta :: "content \<Rightarrow> Meta option" where
  "json_Unmarshal_Meta b = (case b of MetaJSON m \<Rightarrow> Some m | _ \<Rightarrow> None)"

definition ReadMetaFile :: "path \<Rightarrow> Meta io" where
  "ReadMetaFile d =
     io_bind (os_ReadFile (d @ [MetaFilename])) (\<lambda>b.
       case json_Unmarshal_Meta b of
         None \<Rightarrow> io_fail ErrSyntax
       | Some m \<Rightarrow>
           if Version m \<noteq> 1 then io_fail (ErrVersion (Version m))
           else io_return m)"

definition renameFile :: "path \<Rightarrow> path \<Rightarrow> unit io" where
  "renameFile from to =
     io_bind (os_RemoveAll to) (\<lambda>_.
     io_bind (os_Rename from to) (\<lambda>_.
     io_bind (fileutil_OpenDir (butlast to)) (\<lambda>pdir w.
       case fileutil_Fsync pdir w of
         (Inl e, w') \<Rightarrow> (Inl e, runutil_CloseWithLogOnErr pdir ''rename file dir close'' w')
       | (Inr _, w') \<Rightarrow> file_Close pdir w')))"

definition WriteMetaFile :: "path \<Rightarrow> Meta \<Rightarrow> unit io" where
  "WriteMetaFile d meta =
     (let path = d @ [MetaFilename];
          tmp = d @ [MetaFilename @ ''.tmp'']
      in io_bind (os_Create tmp) (\<lambda>f w.
           case json_Encode f (MetaJSON meta) w of
             (Inl e, w') \<Rightarrow> (Inl e, runutil_CloseWithLogOnErr f ''write meta file close'' w')
           | (Inr _, w') \<Rightarrow>
               io_bind (file_Close f) (\<lambda>_. renameFile tmp path) w'))"

subsection \<open>Package \<^verbatim>\<open>block\<close>\<close>

definition json_Unmarshal_BlockMeta :: "content \<Rightarrow> BlockMeta option" where
  "json_Unmarshal_BlockMeta b = (case b of BlockMetaJSON m \<Rightarrow> Some m | _ \<Rightarrow> None)"

text \<open>
  Modelled from the spec: \<^verbatim>\<open>block.ReadMetaFile\<close> is missing from the sources. The scanner
  "attempts to load its manifest", which fails for a "missing/corrupt manifest": the
  manifest file of the directory is read and decoded.
\<close>

definition block_ReadMetaFile :: "deps \<Rightarrow> path \<Rightarrow> BlockMeta io" where
  "block_ReadMetaFile X d =
     io_bind (os_ReadFile (d @ [block_MetaFilename X])) (\<lambda>b.
       case json_Unmarshal_BlockMeta b of
         None \<Rightarrow> io_fail ErrSyntax
       | Some m \<Rightarrow> io_return m)"

text \<open>
  Modelled from the spec: \<^verbatim>\<open>block.WriteMetaFile\<close> is missing from the sources. It has to
  "overwrite the staged manifest file (not the original) with the atomic writer", whose
  algorithm is: "write content to a sibling temporary path; flush and close it; remove
  any pre-existing file at the target path; rename the temporary path onto the target
  path; open the parent directory and force a durability barrier on it; close the
  directory handle".
\<close>

definition block_WriteMetaFile :: "deps \<Rightarrow> path \<Rightarrow> BlockMeta \<Rightarrow> unit io" where
  "block_WriteMetaFile X d meta =
     (let path = d @ [block_MetaFilename X];
          tmp = d @ [block_MetaFilename X @ ''.tmp'']
      in io_bind (os_Create tmp) (\<lambda>f w.
           case json_Encode f (BlockMetaJSON meta) w of
             (Inl e, w') \<Rightarrow> (Inl e, runutil_CloseWithLogOnErr f ''write meta file close'' w')
           | (Inr _, w') \<Rightarrow>
               io_bind (file_Close f) (\<lambda>_. renameFile tmp path) w'))"

text \<open>The regular files below \<open>d\<close>, as paths relative to \<open>d\<close>, sorted.\<close>

definition files_below :: "(path, node) fmap \<Rightarrow> path \<Rightarrow> path list" where
  "files_below fs d =
     map (drop (length d))
       (sorted_list_of_fset
          (ffilter (\<lambda>q. strict_prefix d q \<and> is_file (fmlookup fs q)) (fmdom fs)))"

text \<open>One file of the staging directory goes to the object \<^verbatim>\<open><blockID>/<filename>\<close>.\<close>

definition upload_file :: "path \<Rightarrow> path \<Rightarrow> unit io" where
  "upload_file bdir rel =
     io_bind (os_ReadFile (bdir @ rel)) (\<lambda>c. bucket_Upload (last bdir # rel) c)"

fun upload_files :: "path \<Rightarrow> path list \<Rightarrow> unit io" where
  "upload_files bdir [] w = (Inr (), w)"
| "upload_files bdir (rel # rels) w =
     (case upload_file bdir rel w of
        (Inl e, w') \<Rightarrow> (Inl e, w')
      | (Inr _, w') \<Rightarrow> upload_files bdir rels w')"

text \<open>
  Modelled from the spec: \<^verbatim>\<open>block.Upload\<close> is missing from the sources. It has to
  "transfer every file in the staging directory to the remote store under a path prefix
  derived from the block ID, in an order where the manifest is uploaded last". The
  staging directory is named by the block ID, so its last component is the prefix; a path
  with no component names no block and is an error. \<open>files_below\<close>, \<open>upload_file\<close> and
  \<open>upload_files\<close> above are the parts of this model.
\<close>

definition block_Upload :: "deps \<Rightarrow> path \<Rightarrow> unit io" where
  "block_Upload X bdir w =
     (if bdir = [] then (Inl ENOENT, w)
      else
        (let manifest = [block_MetaFilename X];
             others = filter (\<lambda>rel. rel \<noteq> manifest) (files_below (files w) bdir)
         in upload_files bdir (others @ [manifest]) w))"

subsection \<open>Scanning the directory\<close>

text \<open>
  Lines 243 to 260, the body of the loop of \<^verbatim>\<open>iterBlockMetas\<close> up to the call of \<open>f\<close>: a name
  that is no block ID, a name that cannot be opened, a name that is no directory and a
  directory whose meta file cannot be read are passed over (\<open>None\<close>), the latter two with a
  warning; otherwise the result is the block meta.
\<close>

definition scan_entry :: "deps \<Rightarrow> Shipper \<Rightarrow> string \<Rightarrow> world \<Rightarrow> BlockMeta option \<times> world" where
  "scan_entry X s n w =
     (case IsBlockDir X n of
        None \<Rightarrow> (None, w)
      | Some _ \<Rightarrow>
          (case os_Stat (dir s @ [n]) w of
             (Inl e, w1) \<Rightarrow> (None, log (Log Warn ''open file failed'' None (Some e)) w1)
           | (Inr fi, w1) \<Rightarrow>
               if \<not> IsDir fi then (None, w1)
               else
                 (case block_ReadMetaFile X (dir s @ [n]) w1 of
                    (Inl e, w2) \<Rightarrow>
                      (None, log (Log Warn ''reading meta file failed'' None (Some e)) w2)
                  | (Inr m, w2) \<Rightarrow> (Some m, w2))))"

text \<open>
  \<^verbatim>\<open>iterBlockMetas\<close> calls \<open>f\<close> on the meta of each block directory; \<open>f\<close> is a closure over
  variables of its caller, whose values are the argument and result \<open>'a\<close> here. \<open>iterNames\<close>
  is the \<^verbatim>\<open>for _, n := range names\<close> loop: an error of \<open>f\<close> ends it.
\<close>

fun iterNames :: "deps \<Rightarrow> Shipper \<Rightarrow> (BlockMeta \<Rightarrow> 'a \<Rightarrow> 'a io) \<Rightarrow> string list \<Rightarrow> 'a \<Rightarrow> 'a io" where
  "iterNames X s f [] a w = (Inr a, w)"
| "iterNames X s f (n # ns) a w =
     (case scan_entry X s n w of
        (None, w1) \<Rightarrow> iterNames X s f ns a w1
      | (Some m, w1) \<Rightarrow>
          (case f m a w1 of
             (Inl e, w2) \<Rightarrow> (Inl e, w2)
           | (Inr a', w2) \<Rightarrow> iterNames X s f ns a' w2))"

definition iterBlockMetas :: "deps \<Rightarrow> Shipper \<Rightarrow> (BlockMeta \<Rightarrow> 'a \<Rightarrow> 'a io) \<Rightarrow> 'a \<Rightarrow> 'a io" where
  "iterBlockMetas X s f a =
     io_bind (wrap ''read dir'' (fileutil_ReadDir (dir s))) (\<lambda>names. iterNames X s f names a)"

subsection \<open>Uploading one block\<close>

definition path_String :: "path \<Rightarrow> string" where
  "path_String p = foldr (\<lambda>c acc. if acc = [] then c else c @ ''/'' @ acc) p []"

fun link_files :: "path \<Rightarrow> path \<Rightarrow> path list \<Rightarrow> unit io" where
  "link_files src dst [] w = (Inr (), w)"
| "link_files src dst (fn # fns) w =
     (case os_Link (src @ fn) (dst @ fn) w of
        (Inl e, w') \<Rightarrow> (Inl (Wrap (''hard link file '' @ path_String fn) e), w')
      | (Inr _, w') \<Rightarrow> link_files src dst fns w')"

definition hardlinkBlock :: "deps \<Rightarrow> path \<Rightarrow> path \<Rightarrow> unit io" where
  "hardlinkBlock X src dst =
     (let chunkDir = dst @ [block_ChunksDirname X]
      in io_bind (wrap ''create chunks dir'' (os_MkdirAll chunkDir)) (\<lambda>_.
         io_bind (wrap ''read chunk dir'' (fileutil_ReadDir (src @ [block_ChunksDirname X]))) (\<lambda>files.
           link_files src dst
             (map (\<lambda>fn. [block_ChunksDirname X, fn]) files
                @ [[block_MetaFilename X], [block_IndexFilename X]]))))"

text \<open>The statements of \<^verbatim>\<open>sync\<close> after the \<^verbatim>\<open>defer\<close>, lines 220 to 231.\<close>

definition sync_staged :: "deps \<Rightarrow> Shipper \<Rightarrow> BlockMeta \<Rightarrow> path \<Rightarrow> path \<Rightarrow> unit io" where
  "sync_staged X s meta d updir =
     io_bind (wrap ''hard link block'' (hardlinkBlock X d updir)) (\<lambda>_.
       let meta1 = (case labels s of
                      None \<Rightarrow> meta
                    | Some lset \<Rightarrow> meta\<lparr>Thanos_Labels := lset\<rparr>);
           meta2 = meta1\<lparr>Thanos_Source := source s\<rparr>
       in io_bind (wrap ''write meta file'' (block_WriteMetaFile X updir meta2)) (\<lambda>_.
            block_Upload X updir))"

definition sync :: "deps \<Rightarrow> Shipper \<Rightarrow> BlockMeta \<Rightarrow> unit io" where
  "sync X s meta w =
     (let d = dir s @ [ULID_String X (ULID meta)]
      in if Compaction_Level meta > 1 then (Inr (), w)
         else
           (case bucket_Exists [ULID_String X (ULID meta), block_MetaFilename X] w of
              (Inl e, w1) \<Rightarrow> (Inl (Wrap ''check exists'' e), w1)
            | (Inr ok, w1) \<Rightarrow>
                if ok then (Inr (), w1)
                else
                  (let w2 = log (Log Info ''upload new block'' (Some (ULID meta)) None) w1;
                       updir = dir s @ [''thanos'', ''upload'', ULID_String X (ULID meta)]
                   in case os_RemoveAll updir w2 of
                        (Inl e, w3) \<Rightarrow> (Inl (Wrap ''clean upload directory'' e), w3)
                      | (Inr _, w3) \<Rightarrow>
                          (case os_MkdirAll updir w3 of
                             (Inl e, w4) \<Rightarrow> (Inl (Wrap ''create upload dir'' e), w4)
                           | (Inr _, w4) \<Rightarrow>
                               (case sync_staged X s meta d updir w4 of
                                  (r, w5) \<Rightarrow>
                                    (case os_RemoveAll updir w5 of
                                       (Inl e, w6) \<Rightarrow>
                                         (r, log (Log Error ''failed to clean upload directory''
                                                    None (Some e)) w6)
                                     | (Inr _, w6) \<Rightarrow> (r, w6)))))))"

subsection \<open>One pass\<close>

definition os_IsNotExist :: "error \<Rightarrow> bool" where
  "os_IsNotExist e = (e = ENOENT)"

text \<open>
  The closure that \<^verbatim>\<open>Sync\<close> hands to \<^verbatim>\<open>iterBlockMetas\<close>. It reads \<^verbatim>\<open>hasUploaded\<close> and appends
  to \<^verbatim>\<open>meta.Uploaded\<close>.
\<close>

definition Sync_visit :: "deps \<Rightarrow> Shipper \<Rightarrow> ulid set \<Rightarrow> BlockMeta \<Rightarrow> Meta \<Rightarrow> Meta io" where
  "Sync_visit X s hasUploaded m meta w =
     (if ULID m \<notin> hasUploaded then
        (case sync X s m w of
           (Inl e, w') \<Rightarrow>
             (Inr meta, log (Log Error ''shipping failed'' (Some (ULID m)) (Some e)) w')
         | (Inr _, w') \<Rightarrow> (Inr (meta\<lparr>Uploaded := Uploaded meta @ [ULID m]\<rparr>), w'))
      else (Inr (meta\<lparr>Uploaded := Uploaded meta @ [ULID m]\<rparr>), w))"

text \<open>
  Lines 141 to 150 of \<^verbatim>\<open>Sync\<close>: the bookkeeping record is loaded; on any error the pass
  goes on with \<^verbatim>\<open>&Meta{Version: 1}\<close>, and logs a warning unless the file did not exist.
\<close>

definition Sync_load :: "Shipper \<Rightarrow> world \<Rightarrow> Meta \<times> world" where
  "Sync_load s w =
     (case ReadMetaFile (dir s) w of
        (Inl e, w') \<Rightarrow>
          (\<lparr>Version = 1, Uploaded = []\<rparr>,
           if \<not> os_IsNotExist e
           then log (Log Warn ''reading meta file failed, removing it'' None (Some e)) w'
           else w')
      | (Inr m, w') \<Rightarrow> (m, w'))"

definition Sync :: "deps \<Rightarrow> Shipper \<Rightarrow> world \<Rightarrow> world" where
  "Sync X s w =
     (case Sync_load s w of
        (meta, w1) \<Rightarrow>
          (case iterBlockMetas X s (Sync_visit X s (set (Uploaded meta)))
                  (meta\<lparr>Uploaded := []\<rparr>) w1 of
             (Inl e, w2) \<Rightarrow> log (Log Error ''iter block metas failed'' None (Some e)) w2
           | (Inr meta', w2) \<Rightarrow>
               (case WriteMetaFile (dir s) meta' w2 of
                  (Inl e, w3) \<Rightarrow> log (Log Warn ''updating meta file failed'' None (Some e)) w3
                | (Inr _, w3) \<Rightarrow> w3)))"

subsection \<open>Timestamps\<close>

text \<open>The closure of \<^verbatim>\<open>Timestamps\<close>; its variables are \<^verbatim>\<open>minTime\<close> and \<^verbatim>\<open>maxSyncTime\<close>.\<close>

definition Timestamps_visit :: "ulid set \<Rightarrow> BlockMeta \<Rightarrow> int64 \<times> int64 \<Rightarrow> (int64 \<times> int64) io" where
  "Timestamps_visit hasUploaded m = (\<lambda>(minTime, maxSyncTime).
     io_return
       (if MinTime m <s minTime then MinTime m else minTime,
        if ULID m \<in> hasUploaded \<and> maxSyncTime <s MaxTime m then MaxTime m else maxSyncTime))"

text \<open>The result is the triple \<^verbatim>\<open>(minTime, maxSyncTime, err)\<close>; \<open>None\<close> is the nil error.\<close>

definition Timestamps :: "deps \<Rightarrow> Shipper \<Rightarrow> world \<Rightarrow> (int64 \<times> int64 \<times> error option) \<times> world" where
  "Timestamps X s w =
     (case ReadMetaFile (dir s) w of
        (Inl e, w1) \<Rightarrow> ((0, 0, Some (Wrap ''read shipper meta file'' e)), w1)
      | (Inr meta, w1) \<Rightarrow>
          (case iterBlockMetas X s (Timestamps_visit (set (Uploaded meta)))
                  (MaxInt64, MinInt64) w1 of
             (Inl e, w2) \<Rightarrow> ((0, 0, Some (Wrap ''iter Block metas for timestamp'' e)), w2)
           | (Inr (minTime, maxSyncTime), w2) \<Rightarrow>
               ((if minTime = MaxInt64 then 0 else minTime, maxSyncTime, None), w2)))"

subsection \<open>The blocks of a pass\<close>

text \<open>
  To speak about the blocks that one scan hands to its closure, the closure is run inside
  \<open>recording\<close>: it behaves as \<open>f\<close> does and notes, for each call, the block meta together with
  the world before and the world after the call. \<open>visits\<close> is the list noted by a whole
  scan.
\<close>

type_synonym visit = "BlockMeta \<times> world \<times> world"

definition recording ::
  "(BlockMeta \<Rightarrow> 'a \<Rightarrow> 'a io) \<Rightarrow> BlockMeta \<Rightarrow> visit list \<times> 'a \<Rightarrow> (visit list \<times> 'a) io" where
  "recording f m = (\<lambda>(vs, a) w.
     case f m a w of
       (Inl e, w') \<Rightarrow> (Inl e, w')
     | (Inr a', w') \<Rightarrow> (Inr (vs @ [(m, w, w')], a'), w'))"

definition visits :: "deps \<Rightarrow> Shipper \<Rightarrow> (BlockMeta \<Rightarrow> 'a \<Rightarrow> 'a io) \<Rightarrow> 'a \<Rightarrow> world \<Rightarrow> visit list" where
  "visits X s f a w =
     (case iterBlockMetas X s (recording f) ([], a) w of
        (Inl e, w') \<Rightarrow> []
      | (Inr (vs, a'), w') \<Rightarrow> vs)"

subsection \<open>The blocks on the file system\<close>

text \<open>
  \<open>block_at\<close> is the block meta that the file system holds under a name of the root: the
  name is a block ID, it is a directory, and its meta file decodes. \<open>local_blocks\<close> lists the
  blocks of the root in the order of their names.
\<close>

definition block_at :: "deps \<Rightarrow> Shipper \<Rightarrow> (path, node) fmap \<Rightarrow> string \<Rightarrow> BlockMeta option" where
  "block_at X s fs n =
     (case IsBlockDir X n of
        None \<Rightarrow> None
      | Some _ \<Rightarrow>
          (case fmlookup fs (dir s @ [n]) of
             Some Dir \<Rightarrow>
               (case fmlookup fs (dir s @ [n, block_MetaFilename X]) of
                  Some (File c) \<Rightarrow> json_Unmarshal_BlockMeta c
                | _ \<Rightarrow> None)
           | _ \<Rightarrow> None))"

definition local_blocks :: "deps \<Rightarrow> Shipper \<Rightarrow> (path, node) fmap \<Rightarrow> BlockMeta list" where
  "local_blocks X s fs = List.map_filter (block_at X s fs) (children fs (dir s))"

text \<open>
  \<open>scan_paths\<close> are the paths that a scan of the root looks at. \<open>steady S w w'\<close> says that
  the step from \<open>w\<close> to \<open>w'\<close> has left the paths in \<open>S\<close> as they were, and that it has met no
  fault if none was left in \<open>w\<close>.
\<close>

definition scan_paths :: "deps \<Rightarrow> Shipper \<Rightarrow> path set" where
  "scan_paths X s =
     {dir s} \<union> {dir s @ [n] | n. IsBlockDir X n \<noteq> None}
       \<union> {dir s @ [n, block_MetaFilename X] | n. IsBlockDir X n \<noteq> None}"

definition steady :: "path set \<Rightarrow> world \<Rightarrow> world \<Rightarrow> bool" where
  "steady S w w' \<longleftrightarrow>
     (\<forall>p \<in> S. fmlookup (files w') p = fmlookup (files w) p) \<and> (faults w = [] \<longrightarrow> faults w' = [])"

text \<open>\<open>offline w w'\<close> says that the step from \<open>w\<close> to \<open>w'\<close> has made no call on the bucket.\<close>

definition offline :: "world \<Rightarrow> world \<Rightarrow> bool" where
  "offline w w' \<longleftrightarrow> objects w' = objects w \<and> calls w' = calls w"

subsection \<open>A small installation\<close>

text \<open>
  The scenario of the specification: the root \<^verbatim>\<open>data\<close> holds block \<open>B1\<close> (level 1, times 100
  to 200) and block \<open>B2\<close> (level 2, times 50 to 150); the bucket is empty and there is no
  bookkeeping file yet.
\<close>

definition ex_deps :: deps where
  "ex_deps =
     \<lparr>IsBlockDir = (\<lambda>n. if n = ''B1'' then Some 1 else if n = ''B2'' then Some 2
                         else if n = ''B3'' then Some 3 else None),
      ULID_String = (\<lambda>u. if u = 1 then ''B1'' else if u = 2 then ''B2''
                          else if u = 3 then ''B3'' else ''other''),
      block_MetaFilename = ''meta.json'',
      block_IndexFilename = ''index'',
      block_ChunksDirname = ''chunks''\<rparr>"

definition ex_shipper :: Shipper where
  "ex_shipper = \<lparr>dir = [''data''], labels = Some [(''replica'', ''a'')], source = ''sidecar''\<rparr>"

definition B1 :: BlockMeta where
  "B1 = \<lparr>ULID = 1, MinTime = 100, MaxTime = 200, Compaction_Level = 1,
          Thanos_Labels = [], Thanos_Source = []\<rparr>"

definition B2 :: BlockMeta where
  "B2 = \<lparr>ULID = 2, MinTime = 50, MaxTime = 150, Compaction_Level = 2,
          Thanos_Labels = [], Thanos_Source = []\<rparr>"

definition ex_files :: "(path, node) fmap" where
  "ex_files = fmap_of_list
     [([''data''], Dir),
      ([''data'', ''B1''], Dir),
      ([''data'', ''B1'', ''meta.json''], File (BlockMetaJSON B1)),
      ([''data'', ''B1'', ''index''], File (Bytes ''i1'')),
      ([''data'', ''B1'', ''chunks''], Dir),
      ([''data'', ''B1'', ''chunks'', ''000001''], File (Bytes ''c1'')),
      ([''data'', ''B2''], Dir),
      ([''data'', ''B2'', ''meta.json''], File (BlockMetaJSON B2)),
      ([''data'', ''B2'', ''index''], File (Bytes ''i2'')),
      ([''data'', ''B2'', ''chunks''], Dir)]"

definition ex_world :: world where
  "ex_world = \<lparr>files = ex_files, objects = fmempty, calls = [], logged = [], faults = []\<rparr>"

text \<open>The same installation when the bucket already holds the manifest of \<open>B1\<close>.\<close>

definition ex_world_shipped :: world where
  "ex_world_shipped =
     ex_world\<lparr>objects := fmap_of_list [([''B1'', ''meta.json''], BlockMetaJSON B1)]\<rparr>"

text \<open>The world in which the scan of the first pass has ended.\<close>

definition ex_world_scanned :: world where
  "ex_world_scanned =
     snd (iterBlockMetas ex_deps ex_shipper (Sync_visit ex_deps ex_shipper {})
            \<lparr>Version = 1, Uploaded = []\<rparr> ex_world)"

text \<open>
  For a scan that starts at the names: the two file system calls on \<open>B1\<close> succeed, the
  request to the bucket fails.
\<close>

definition ex_world_faulty :: world where
  "ex_world_faulty = ex_world\<lparr>faults := [False, False, True]\<rparr>"

text \<open>A bookkeeping file of a version the shipper does not know.\<close>

definition ex_world_stale :: world where
  "ex_world_stale =
     ex_world\<lparr>files := fmupd [''data'', ''thanos.shipper.json'']
                          (File (MetaJSON \<lparr>Version = 2, Uploaded = [1]\<rparr>)) ex_files\<rparr>"

text \<open>A block that starts at the largest \<^verbatim>\<open>int64\<close>, in a root whose bookkeeping record is empty.\<close>

definition B3 :: BlockMeta where
  "B3 = \<lparr>ULID = 3, MinTime = 9223372036854775807, MaxTime = 9223372036854775807,
          Compaction_Level = 1, Thanos_Labels = [], Thanos_Source = []\<rparr>"

definition ex_world_late :: world where
  "ex_world_late =
     \<lparr>files = fmap_of_list
        [([''data''], Dir),
         ([''data'', ''B3''], Dir),
         ([''data'', ''B3'', ''meta.json''], File (BlockMetaJSON B3)),
         ([''data'', ''thanos.shipper.json''], File (MetaJSON \<lparr>Version = 1, Uploaded = []\<rparr>))],
      objects = fmempty, calls = [], logged = [], faults = []\<rparr>"

text \<open>The installation after one pass.\<close>

definition ex_world_synced :: world where
  "ex_world_synced = Sync ex_deps ex_shipper ex_world"

text \<open>
  For a whole pass: the bucket does not answer the existence check for \<open>B1\<close>, which is the
  fifth call of the pass; all later calls succeed.
\<close>

definition ex_world_flaky :: world where
  "ex_world_flaky = ex_world\<lparr>faults := [False, False, False, False, True]\<rparr>"

text \<open>The installation after the upload procedure of \<open>B1\<close> alone.\<close>

definition ex_world_uploaded :: world where
  "ex_world_uploaded = snd (sync ex_deps ex_shipper B1 ex_world)"




section \<open>Properties\<close>

subsection \<open>Auxiliary facts\<close>

lemma recording_apply:
  "recording f m (vs, a) w =
     (case f m a w of
        (Inl e, w') \<Rightarrow> (Inl e, w')
      | (Inr a', w') \<Rightarrow> (Inr (vs @ [(m, w, w')], a'), w'))"
  by (simp add: recording_def)

lemma iterNames_recording_err:
  "iterNames X s f ns a w = (Inl e, w') \<Longrightarrow>
   iterNames X s (recording f) ns (vs, a) w = (Inl e, w')"
proof (induction ns arbitrary: vs a w)
  case Nil
  then show ?case by simp
next
  case (Cons n ns)
  then show ?case
    by (auto simp: recording_apply split: option.splits prod.splits sum.splits)
qed

lemma iterNames_recording_ok:
  "iterNames X s f ns a w = (Inr a', w') \<Longrightarrow>
   \<exists>new. \<forall>vs. iterNames X s (recording f) ns (vs, a) w = (Inr (vs @ new, a'), w')"
proof (induction ns arbitrary: a w)
  case Nil
  then show ?case by simp
next
  case (Cons n ns)
  obtain r w1 where se: "scan_entry X s n w = (r, w1)"
    by (cases "scan_entry X s n w")
  show ?case
  proof (cases r)
    case None
    with Cons.prems se have "iterNames X s f ns a w1 = (Inr a', w')" by simp
    from Cons.IH [OF this] None se show ?thesis by simp
  next
    case (Some m)
    obtain r2 w2 where fm: "f m a w1 = (r2, w2)"
      by (cases "f m a w1")
    with Cons.prems se Some obtain a2 where r2: "r2 = Inr a2"
      and rest: "iterNames X s f ns a2 w2 = (Inr a', w')"
      by (cases r2) auto
    from Cons.IH [OF rest] obtain new where
      new: "\<And>vs. iterNames X s (recording f) ns (vs, a2) w2 = (Inr (vs @ new, a'), w')"
      by blast
    have "\<forall>vs. iterNames X s (recording f) (n # ns) (vs, a) w
             = (Inr (vs @ ((m, w1, w2) # new), a'), w')"
      using se Some fm r2 new by (simp add: recording_apply)
    then show ?thesis by blast
  qed
qed
lemma Sync_iterNames_recorded:
  "iterNames X s (recording (Sync_visit X s has)) ns (vs, meta) w = (Inr (vs', meta'), w') \<Longrightarrow>
   \<exists>new. vs' = vs @ new
     \<and> Uploaded meta' = Uploaded meta
          @ map (\<lambda>(m, wb, wa). ULID m)
              (filter (\<lambda>(m, wb, wa). ULID m \<in> has \<or> fst (sync X s m wb) = Inr ()) new)
     \<and> Version meta' = Version meta
     \<and> (\<forall>(m, wb, wa) \<in> set new. ULID m \<in> has \<longrightarrow> wa = wb)"
proof (induction ns arbitrary: vs meta w)
  case Nil
  then show ?case by simp
next
  case (Cons n ns)
  obtain r w1 where se: "scan_entry X s n w = (r, w1)"
    by (cases "scan_entry X s n w")
  show ?case
  proof (cases r)
    case None
    with Cons.prems se
    have "iterNames X s (recording (Sync_visit X s has)) ns (vs, meta) w1 = (Inr (vs', meta'), w')"
      by simp
    from Cons.IH [OF this] show ?thesis .
  next
    case (Some m)
    obtain r2 w2 where fm: "Sync_visit X s has m meta w1 = (r2, w2)"
      by (cases "Sync_visit X s has m meta w1")
    with Cons.prems se Some obtain meta2 where r2: "r2 = Inr meta2"
      and rest: "iterNames X s (recording (Sync_visit X s has)) ns (vs @ [(m, w1, w2)], meta2) w2
                  = (Inr (vs', meta'), w')"
      by (cases r2) (auto simp: recording_apply)
    from Cons.IH [OF rest] obtain new where
      new: "vs' = (vs @ [(m, w1, w2)]) @ new"
        "Uploaded meta' = Uploaded meta2
          @ map (\<lambda>(m, wb, wa). ULID m)
              (filter (\<lambda>(m, wb, wa). ULID m \<in> has \<or> fst (sync X s m wb) = Inr ()) new)"
        "Version meta' = Version meta2"
        "\<forall>(m, wb, wa) \<in> set new. ULID m \<in> has \<longrightarrow> wa = wb"
      by blast
    have step: "Uploaded meta2 = Uploaded meta
          @ (if ULID m \<in> has \<or> fst (sync X s m w1) = Inr () then [ULID m] else [])"
      "Version meta2 = Version meta" "ULID m \<in> has \<longrightarrow> w2 = w1"
      using fm r2 by (auto simp: Sync_visit_def split: prod.splits sum.splits if_splits)
    show ?thesis
      apply (rule exI [of _ "(m, w1, w2) # new"])
      using new step by auto
  qed
qed

lemma fault_props:
  "fault w = (b, w') \<Longrightarrow>
     files w' = files w \<and> objects w' = objects w \<and> calls w' = calls w
     \<and> logged w' = logged w \<and> faults w' = tl (faults w) \<and> (faults w = [] \<longrightarrow> \<not> b)"
  by (auto simp: fault_def split: list.splits)

lemma syscall_cases:
  assumes "syscall f w = (r, w')"
  obtains (failed) w0 where "fault w = (True, w0)" "r = Inl EIO" "w' = w0"
  | (ran) w0 where "fault w = (False, w0)" "f w0 = (r, w')"
  using assms by (cases "fault w") (auto simp: syscall_def split: bool.splits)

lemma os_Create_files:
  assumes "os_Create p w = (r, w')"
  shows "(r = Inr p \<and> files w' = fmupd p (File (Bytes [])) (files w)
            \<and> fmlookup (files w) (butlast p) = Some Dir)
         \<or> ((\<exists>e. r = Inl e) \<and> files w' = files w)"
  using assms unfolding os_Create_def
  by (elim syscall_cases) (auto dest!: fault_props split: if_splits)

lemma json_Encode_files:
  assumes "json_Encode f c w = (r, w')"
  shows "(r = Inr () \<and> files w' = fmupd f (File c) (files w))
         \<or> (r = Inl EIO \<and> files w' = fmupd f (File (Partial c)) (files w))"
  using assms
  by (cases "fault w") (auto simp: json_Encode_def dest!: fault_props split: bool.splits)

lemma file_Close_files:
  "file_Close f w = (r, w') \<Longrightarrow> files w' = files w"
  unfolding file_Close_def by (elim syscall_cases) (auto dest!: fault_props)

lemma runutil_CloseWithLogOnErr_files:
  "files (runutil_CloseWithLogOnErr f msg w) = files w"
  by (cases "file_Close f w")
    (auto simp: runutil_CloseWithLogOnErr_def log_def dest: file_Close_files split: sum.splits)

lemma os_RemoveAll_files:
  assumes "os_RemoveAll p w = (r, w')"
  shows "(r = Inr () \<and> files w' = fmfilter (\<lambda>q. \<not> prefix p q) (files w))
         \<or> (r = Inl EIO \<and> files w' = files w)"
  using assms unfolding os_RemoveAll_def
  by (elim syscall_cases) (auto dest!: fault_props cong del: fmfilter_cong)

lemma os_Rename_files:
  assumes "os_Rename from to w = (r, w')"
  shows "(r = Inr () \<and> (\<exists>c. fmlookup (files w) from = Some (File c)
                          \<and> files w' = fmupd to (File c) (fmdrop from (files w))))
         \<or> ((\<exists>e. r = Inl e) \<and> files w' = files w)"
  using assms unfolding os_Rename_def
  by (elim syscall_cases)
    (auto dest!: fault_props split: option.splits node.splits if_splits)

lemma fileutil_OpenDir_files:
  "fileutil_OpenDir p w = (r, w') \<Longrightarrow> files w' = files w"
  unfolding fileutil_OpenDir_def
  by (elim syscall_cases) (auto dest!: fault_props split: option.splits node.splits)

lemma fileutil_Fsync_files:
  "fileutil_Fsync p w = (r, w') \<Longrightarrow> files w' = files w"
  unfolding fileutil_Fsync_def by (elim syscall_cases) (auto dest!: fault_props)

lemma io_bind_cases:
  assumes "io_bind m f w = (r, w')"
  obtains (stop) e where "m w = (Inl e, w')" "r = Inl e"
  | (go) x w1 where "m w = (Inr x, w1)" "f x w1 = (r, w')"
  using assms by (cases "m w") (auto simp: io_bind_def split: sum.splits)

text \<open>The three stages of renameFile, as far as the files go.\<close>

lemma renameFile_files:
  assumes "renameFile from to w = (r, w')"
  shows "((\<exists>e. r = Inl e) \<and> files w' = files w)
       \<or> ((\<exists>e. r = Inl e) \<and> files w' = fmfilter (\<lambda>q. \<not> prefix to q) (files w))
       \<or> (\<exists>c. fmlookup (fmfilter (\<lambda>q. \<not> prefix to q) (files w)) from = Some (File c)
             \<and> files w' = fmupd to (File c) (fmdrop from (fmfilter (\<lambda>q. \<not> prefix to q) (files w))))"
  using assms unfolding renameFile_def
proof (cases rule: io_bind_cases)
  case (stop e)
  with os_RemoveAll_files [OF stop(1)] show ?thesis by auto
next
  case (go x w1)
  from os_RemoveAll_files [OF go(1)]
  have f1: "files w1 = fmfilter (\<lambda>q. \<not> prefix to q) (files w)" by auto
  from go(2) show ?thesis
  proof (cases rule: io_bind_cases)
    case (stop e)
    with os_Rename_files [OF stop(1)] f1 show ?thesis by auto
  next
    case (go y w2)
    from os_Rename_files [OF go(1)] f1 obtain c where
      c: "fmlookup (fmfilter (\<lambda>q. \<not> prefix to q) (files w)) from = Some (File c)" and
      f2: "files w2 = fmupd to (File c) (fmdrop from (fmfilter (\<lambda>q. \<not> prefix to q) (files w)))"
      by auto
    from go(2) have "files w' = files w2"
    proof (cases rule: io_bind_cases)
      case (stop e)
      then show ?thesis by (auto dest: fileutil_OpenDir_files)
    next
      case (go pdir w3)
      from go(1) have "files w3 = files w2" by (rule fileutil_OpenDir_files)
      moreover have "files w' = files w3"
      proof (cases "fileutil_Fsync pdir w3")
        case (Pair r3 w4)
        then have "files w4 = files w3" by (rule fileutil_Fsync_files)
        with Pair go(2) show ?thesis
          by (cases r3) (auto simp: runutil_CloseWithLogOnErr_files dest: file_Close_files)
      qed
      ultimately show ?thesis by simp
    qed
    with c f2 show ?thesis by auto
  qed
qed

lemma tmp_not_below_target:
  "\<not> prefix (d @ [n]) (d @ [n @ ''.tmp''])" "d @ [n] \<noteq> d @ [n @ ''.tmp'']"
  by (simp_all add: prefix_def)

lemma WriteMetaFile_files:
  assumes "WriteMetaFile d meta w = (r, w')"
  shows "((\<exists>e. r = Inl e)
            \<and> fmlookup (files w') (d @ [MetaFilename]) = fmlookup (files w) (d @ [MetaFilename]))
       \<or> ((\<exists>e. r = Inl e)
            \<and> fmlookup (files w') (d @ [MetaFilename]) = None
            \<and> fmlookup (files w') (d @ [MetaFilename @ ''.tmp'']) = Some (File (MetaJSON meta)))
       \<or> (fmlookup (files w') (d @ [MetaFilename]) = Some (File (MetaJSON meta))
            \<and> fmlookup (files w') (d @ [MetaFilename @ ''.tmp'']) = None)"
proof -
  let ?to = "d @ [MetaFilename]" and ?tmp = "d @ [MetaFilename @ ''.tmp'']"
  note ne = tmp_not_below_target [of d MetaFilename]
  from assms have "io_bind (os_Create ?tmp) (\<lambda>f w.
           case json_Encode f (MetaJSON meta) w of
             (Inl e, w') \<Rightarrow> (Inl e, runutil_CloseWithLogOnErr f ''write meta file close'' w')
           | (Inr _, w') \<Rightarrow>
               io_bind (file_Close f) (\<lambda>_. renameFile ?tmp ?to) w') w = (r, w')"
    by (simp add: WriteMetaFile_def Let_def)
  then show ?thesis
  proof (cases rule: io_bind_cases)
    case (stop e)
    with os_Create_files [OF stop(1)] show ?thesis by auto
  next
    case (go f w1)
    from os_Create_files [OF go(1)] have f: "f = ?tmp"
      and f1: "files w1 = fmupd ?tmp (File (Bytes [])) (files w)" by auto
    obtain r2 w2 where enc: "json_Encode ?tmp (MetaJSON meta) w1 = (r2, w2)"
      by (cases "json_Encode ?tmp (MetaJSON meta) w1")
    show ?thesis
    proof (cases r2)
      case (Inl e)
      with json_Encode_files [OF enc] f1
      have "files w2 = fmupd ?tmp (File (Partial (MetaJSON meta))) (files w)" by auto
      moreover from go(2) enc Inl f
      have "r = Inl e" "w' = runutil_CloseWithLogOnErr ?tmp ''write meta file close'' w2"
        by auto
      ultimately show ?thesis using ne by (simp add: runutil_CloseWithLogOnErr_files)
    next
      case (Inr u)
      with json_Encode_files [OF enc] f1
      have f2: "files w2 = fmupd ?tmp (File (MetaJSON meta)) (files w)" by auto
      from go(2) enc Inr f
      have "io_bind (file_Close ?tmp) (\<lambda>_. renameFile ?tmp ?to) w2 = (r, w')" by simp
      then show ?thesis
      proof (cases rule: io_bind_cases)
        case (stop e)
        with file_Close_files [OF stop(1)] f2 ne show ?thesis by auto
      next
        case (go x w3)
        from file_Close_files [OF go(1)] f2
        have f3: "files w3 = fmupd ?tmp (File (MetaJSON meta)) (files w)" by simp
        from renameFile_files [OF go(2)] show ?thesis
          unfolding f3 using ne by (auto simp: fmlookup_drop)
      qed
    qed
  qed
qed

lemma WriteMetaFile_ok:
  assumes "WriteMetaFile d meta w = (Inr (), w')"
  shows "fmlookup (files w') (d @ [MetaFilename]) = Some (File (MetaJSON meta))"
  using WriteMetaFile_files [OF assms] by auto

lemma ReadMetaFile_ok_Version:
  "ReadMetaFile d w = (Inr m, w') \<Longrightarrow> Version m = 1"
  by (auto simp: ReadMetaFile_def io_bind_def io_fail_def io_return_def
      split: prod.splits sum.splits option.splits if_splits)

lemma Sync_load_Version:
  "Sync_load s w = (meta, w1) \<Longrightarrow> Version meta = 1"
  by (auto simp: Sync_load_def dest: ReadMetaFile_ok_Version split: prod.splits sum.splits)

lemma ReadMetaFile_no_faults:
  assumes "faults w = []"
    and "fmlookup (files w) (d @ [MetaFilename]) = Some (File (MetaJSON m))"
    and "Version m = 1"
  shows "ReadMetaFile d w = (Inr m, w)"
  using assms
  by (simp add: ReadMetaFile_def io_bind_def io_return_def os_ReadFile_def syscall_def
      fault_def json_Unmarshal_Meta_def)

lemma Sync_visit_total:
  "\<exists>meta' w'. Sync_visit X s has m meta w = (Inr meta', w')"
  by (auto simp: Sync_visit_def split: prod.splits sum.splits)

lemma iterNames_Sync_visit_total:
  "\<exists>meta' w'. iterNames X s (Sync_visit X s has) ns meta w = (Inr meta', w')"
proof (induction ns arbitrary: meta w)
  case Nil
  show ?case by simp
next
  case (Cons n ns)
  obtain r w1 where se: "scan_entry X s n w = (r, w1)"
    by (cases "scan_entry X s n w")
  show ?case
  proof (cases r)
    case None
    with se Cons.IH [of meta w1] show ?thesis by simp
  next
    case (Some m)
    from Sync_visit_total obtain meta2 w2 where
      "Sync_visit X s has m meta w1 = (Inr meta2, w2)" by blast
    with se Some Cons.IH [of meta2 w2] show ?thesis by simp
  qed
qed

lemma iterBlockMetas_cases:
  "iterBlockMetas X s f a w =
     (case fileutil_ReadDir (dir s) w of
        (Inl e, w') \<Rightarrow> (Inl (Wrap ''read dir'' e), w')
      | (Inr names, w') \<Rightarrow> iterNames X s f names a w')"
  by (simp add: iterBlockMetas_def io_bind_def wrap_def split: prod.splits sum.splits)

lemma ReadMetaFile_result:
  "fst (ReadMetaFile d w) =
     (if fst (fault w) then Inl EIO
      else case fmlookup (files w) (d @ [MetaFilename]) of
             None \<Rightarrow> Inl (missing (files w) (d @ [MetaFilename]))
           | Some Dir \<Rightarrow> Inl EISDIR
           | Some (File c) \<Rightarrow>
               (case json_Unmarshal_Meta c of
                  None \<Rightarrow> Inl ErrSyntax
                | Some m \<Rightarrow> if Version m \<noteq> 1 then Inl (ErrVersion (Version m)) else Inr m))"
  by (cases "faults w")
    (auto simp: ReadMetaFile_def io_bind_def io_fail_def io_return_def os_ReadFile_def
      syscall_def fault_def split: option.splits node.splits)

lemma sint_MaxInt64: "sint MaxInt64 = 9223372036854775807"
  by (simp add: MaxInt64_def)

lemma sint_MinInt64: "sint MinInt64 = - 9223372036854775808"
  by (simp add: MinInt64_def)

lemma sint_int64_eq: "sint (x :: int64) = sint y \<longleftrightarrow> x = y"
  by (auto intro: signed_word_eqI)

lemma sint_int64_le: "sint (x :: int64) \<le> 9223372036854775807"
  using sint_lt [of x] by simp

lemma sint_int64_ge: "- 9223372036854775808 \<le> sint (x :: int64)"
  using sint_ge [of x] by simp

lemma Min_insert_min:
  "finite A \<Longrightarrow> Min (insert (min a b) A) = Min (insert a (insert (b :: int) A))"
  by (cases "A = {}") (simp_all add: min.assoc)

lemma Max_insert_max:
  "finite A \<Longrightarrow> Max (insert (max a b) A) = Max (insert a (insert (b :: int) A))"
  by (cases "A = {}") (simp_all add: max.assoc)

lemma Timestamps_visit_apply:
  "Timestamps_visit has m (mn, mx) w =
     (Inr (if MinTime m <s mn then MinTime m else mn,
           if ULID m \<in> has \<and> mx <s MaxTime m then MaxTime m else mx), w)"
  by (simp add: Timestamps_visit_def io_return_def)

lemma Timestamps_iterNames_recorded:
  "iterNames X s (recording (Timestamps_visit has)) ns (vs, (mn, mx)) w = (r, w') \<Longrightarrow>
   \<exists>new mn' mx'. r = Inr (vs @ new, (mn', mx'))
     \<and> sint mn' = Min (insert (sint mn) (sint ` MinTime ` fst ` set new))
     \<and> sint mx' = Max (insert (sint mx)
                      (sint ` MaxTime ` {m \<in> fst ` set new. ULID m \<in> has}))"
proof (induction ns arbitrary: vs mn mx w)
  case Nil
  then show ?case by auto
next
  case (Cons n ns)
  obtain o1 w1 where se: "scan_entry X s n w = (o1, w1)"
    by (cases "scan_entry X s n w")
  show ?case
  proof (cases o1)
    case None
    with Cons.prems se
    have "iterNames X s (recording (Timestamps_visit has)) ns (vs, (mn, mx)) w1 = (r, w')"
      by simp
    from Cons.IH [OF this] show ?thesis .
  next
    case (Some m)
    let ?mn = "if MinTime m <s mn then MinTime m else mn"
    let ?mx = "if ULID m \<in> has \<and> mx <s MaxTime m then MaxTime m else mx"
    from Cons.prems se Some
    have "iterNames X s (recording (Timestamps_visit has)) ns
            (vs @ [(m, w1, w1)], (?mn, ?mx)) w1 = (r, w')"
      by (simp add: recording_apply Timestamps_visit_apply)
    from Cons.IH [OF this] obtain new mn' mx' where
      r: "r = Inr ((vs @ [(m, w1, w1)]) @ new, (mn', mx'))" and
      mn: "sint mn' = Min (insert (sint ?mn) (sint ` MinTime ` fst ` set new))" and
      mx: "sint mx' = Max (insert (sint ?mx)
                         (sint ` MaxTime ` {m \<in> fst ` set new. ULID m \<in> has}))"
      by blast
    have a: "sint ?mn = min (sint (MinTime m)) (sint mn)"
      by (simp add: word_sless_alt)
    have b: "sint ?mx = (if ULID m \<in> has then max (sint (MaxTime m)) (sint mx) else sint mx)"
      by (simp add: word_sless_alt)
    have mn2: "sint mn' = Min (insert (sint mn) (sint ` MinTime ` fst ` set ((m, w1, w1) # new)))"
      unfolding mn a by (simp add: Min_insert_min insert_commute)
    have c: "{m' \<in> fst ` set ((m, w1, w1) # new). ULID m' \<in> has}
             = (if ULID m \<in> has then {m} else {}) \<union> {m \<in> fst ` set new. ULID m \<in> has}"
      by auto
    have mx2: "sint mx' = Max (insert (sint mx)
                 (sint ` MaxTime ` {m' \<in> fst ` set ((m, w1, w1) # new). ULID m' \<in> has}))"
      unfolding mx b c by (simp add: Max_insert_max insert_commute)
    show ?thesis
      using r mn2 mx2 by (intro exI [of _ "(m, w1, w1) # new"] exI conjI) auto
  qed
qed

lemma os_ReadFile_result:
  assumes "os_ReadFile p w = (r, w')"
  shows "files w' = files w \<and> objects w' = objects w \<and> calls w' = calls w
    \<and> (\<forall>c. r = Inr c \<longrightarrow> fmlookup (files w) p = Some (File c))"
  using assms unfolding os_ReadFile_def
  by (elim syscall_cases) (auto dest!: fault_props split: option.splits node.splits)

lemma bucket_Upload_result:
  assumes "bucket_Upload name c w = (r, w')"
  shows "files w' = files w
    \<and> ((r = Inr () \<and> objects w' = fmupd name c (objects w)
           \<and> calls w' = calls w @ [CallUpload name c True])
        \<or> (r = Inl ErrBucket \<and> objects w' = objects w
           \<and> calls w' = calls w @ [CallUpload name c False]))"
  using assms
  by (cases "fault w") (auto simp: bucket_Upload_def dest!: fault_props split: bool.splits)

lemma upload_file_result:
  assumes "upload_file bdir rel w = (r, w')"
  shows "files w' = files w
    \<and> ((\<exists>c. r = Inr () \<and> fmlookup (files w) (bdir @ rel) = Some (File c)
             \<and> objects w' = fmupd (last bdir # rel) c (objects w)
             \<and> calls w' = calls w @ [CallUpload (last bdir # rel) c True])
        \<or> ((\<exists>e. r = Inl e) \<and> objects w' = objects w))"
  using assms unfolding upload_file_def
proof (cases rule: io_bind_cases)
  case (stop e)
  with os_ReadFile_result [OF stop(1)] show ?thesis by auto
next
  case (go c w1)
  with os_ReadFile_result [OF go(1)] bucket_Upload_result [OF go(2)] show ?thesis by auto
qed

lemma upload_file_calls:
  assumes "upload_file bdir rel w = (r, w')"
  shows "\<exists>cs. calls w' = calls w @ cs"
  using assms unfolding upload_file_def
proof (cases rule: io_bind_cases)
  case (stop e)
  with os_ReadFile_result [OF stop(1)] show ?thesis by auto
next
  case (go c w1)
  with os_ReadFile_result [OF go(1)] bucket_Upload_result [OF go(2)] show ?thesis by auto
qed

text \<open>The calls of a run of uploads; when all succeed, one upload per file, in order.\<close>

lemma upload_files_calls:
  assumes "upload_files bdir rels w = (r, w')"
  shows "\<exists>cs. calls w' = calls w @ cs
    \<and> (r = Inr () \<longrightarrow> list_all2 (\<lambda>cl rel. \<exists>c. cl = CallUpload (last bdir # rel) c True) cs rels)"
  using assms
proof (induction rels arbitrary: w)
  case Nil
  then show ?case by simp
next
  case (Cons rel rels)
  obtain r1 w1 where u: "upload_file bdir rel w = (r1, w1)"
    by (cases "upload_file bdir rel w")
  show ?case
  proof (cases r1)
    case (Inl e)
    with Cons.prems u have "w' = w1" "r = Inl e" by auto
    with upload_file_calls [OF u] show ?thesis by auto
  next
    case (Inr x)
    with Cons.prems u have rest: "upload_files bdir rels w1 = (r, w')" by simp
    from upload_file_result [OF u] Inr obtain c where
      c1: "calls w1 = calls w @ [CallUpload (last bdir # rel) c True]" by auto
    from Cons.IH [OF rest] obtain cs where
      cs: "calls w' = calls w1 @ cs"
        "r = Inr () \<longrightarrow> list_all2 (\<lambda>cl rel. \<exists>c. cl = CallUpload (last bdir # rel) c True) cs rels"
      by blast
    show ?thesis
      by (rule exI [of _ "CallUpload (last bdir # rel) c True # cs"]) (use c1 cs in auto)
  qed
qed

text \<open>What a run of uploads leaves in the bucket.\<close>

lemma upload_files_result:
  assumes "upload_files bdir rels w = (r, w')"
  shows "files w' = files w
    \<and> (\<forall>name. fmlookup (objects w') name = fmlookup (objects w) name
          \<or> (\<exists>rel \<in> set rels. name = last bdir # rel))
    \<and> (\<forall>rel \<in> set rels. \<forall>c. fmlookup (objects w) (last bdir # rel) = Some c
          \<and> fmlookup (files w) (bdir @ rel) = Some (File c)
          \<longrightarrow> fmlookup (objects w') (last bdir # rel) = Some c)
    \<and> (r = Inr () \<longrightarrow>
         (\<forall>rel \<in> set rels. \<exists>c. fmlookup (files w) (bdir @ rel) = Some (File c)
            \<and> fmlookup (objects w') (last bdir # rel) = Some c))"
  using assms
proof (induction rels arbitrary: w)
  case Nil
  then show ?case by simp
next
  case (Cons rel rels)
  obtain r1 w1 where u: "upload_file bdir rel w = (r1, w1)"
    by (cases "upload_file bdir rel w")
  note u1 = upload_file_result [OF u]
  show ?case
  proof (cases r1)
    case (Inl e)
    with Cons.prems u have "w' = w1" "r = Inl e" by auto
    with u1 Inl show ?thesis by auto
  next
    case (Inr x)
    with Cons.prems u have rest: "upload_files bdir rels w1 = (r, w')" by simp
    note ih = Cons.IH [OF rest]
    from u1 Inr obtain c where
      c: "fmlookup (files w) (bdir @ rel) = Some (File c)" and
      o1: "objects w1 = fmupd (last bdir # rel) c (objects w)" and
      f1: "files w1 = files w"
      by auto
    have a: "files w' = files w" using ih f1 by simp
    have b: "\<forall>name. fmlookup (objects w') name = fmlookup (objects w) name
          \<or> (\<exists>rel' \<in> set (rel # rels). name = last bdir # rel')"
    proof
      fix name
      from ih have "fmlookup (objects w') name = fmlookup (objects w1) name
          \<or> (\<exists>rel' \<in> set rels. name = last bdir # rel')" by blast
      then show "fmlookup (objects w') name = fmlookup (objects w) name
          \<or> (\<exists>rel' \<in> set (rel # rels). name = last bdir # rel')"
        unfolding o1 by (cases "name = last bdir # rel") auto
    qed
    have keep: "\<And>rel' c'. rel' \<in> set rels \<Longrightarrow>
        fmlookup (objects w1) (last bdir # rel') = Some c' \<Longrightarrow>
        fmlookup (files w) (bdir @ rel') = Some (File c') \<Longrightarrow>
        fmlookup (objects w') (last bdir # rel') = Some c'"
      using ih f1 by auto
    have first: "fmlookup (objects w') (last bdir # rel) = Some c"
    proof (cases "rel \<in> set rels")
      case True
      with keep [of rel c] c o1 show ?thesis by simp
    next
      case False
      with ih have "fmlookup (objects w') (last bdir # rel) = fmlookup (objects w1) (last bdir # rel)"
        by auto
      with o1 show ?thesis by simp
    qed
    have d: "\<forall>rel' \<in> set (rel # rels). \<forall>c'. fmlookup (objects w) (last bdir # rel') = Some c'
          \<and> fmlookup (files w) (bdir @ rel') = Some (File c')
          \<longrightarrow> fmlookup (objects w') (last bdir # rel') = Some c'"
    proof (intro ballI allI impI)
      fix rel' c'
      assume in': "rel' \<in> set (rel # rels)"
        and h: "fmlookup (objects w) (last bdir # rel') = Some c'
                \<and> fmlookup (files w) (bdir @ rel') = Some (File c')"
      show "fmlookup (objects w') (last bdir # rel') = Some c'"
      proof (cases "rel' = rel")
        case True
        with h c first show ?thesis by simp
      next
        case False
        with in' have "rel' \<in> set rels" by simp
        moreover from False h o1 have "fmlookup (objects w1) (last bdir # rel') = Some c'" by simp
        ultimately show ?thesis using keep h by blast
      qed
    qed
    have e: "r = Inr () \<longrightarrow>
         (\<forall>rel' \<in> set (rel # rels). \<exists>c'. fmlookup (files w) (bdir @ rel') = Some (File c')
            \<and> fmlookup (objects w') (last bdir # rel') = Some c')"
      using ih f1 c first by auto
    from a b d e show ?thesis by blast
  qed
qed

lemma upload_files_append:
  "upload_files bdir (xs @ ys) w =
     (case upload_files bdir xs w of
        (Inl e, w1) \<Rightarrow> (Inl e, w1)
      | (Inr u, w1) \<Rightarrow> upload_files bdir ys w1)"
  by (induction xs arbitrary: w) (auto split: prod.splits sum.splits)

subsection \<open>Runs without faults\<close>

lemma fault_none [simp]: "faults w = [] \<Longrightarrow> fault w = (False, w)"
  by (simp add: fault_def)

lemma syscall_none: "faults w = [] \<Longrightarrow> syscall f w = f w"
  by (simp add: syscall_def)

lemma steady_refl [simp]: "steady S w w"
  by (simp add: steady_def)

lemma steady_trans: "steady S w w1 \<Longrightarrow> steady S w1 w2 \<Longrightarrow> steady S w w2"
  by (simp add: steady_def)

lemma steady_log [simp]: "steady S w (log l w)"
  by (simp add: steady_def log_def)

lemma syscall_steady:
  assumes "syscall f w = (r, w')"
    and "\<And>w0 r. files w0 = files w \<Longrightarrow> f w0 = (r, w') \<Longrightarrow>
           (\<forall>p \<in> S. fmlookup (files w') p = fmlookup (files w0) p) \<and> faults w' = faults w0"
  shows "steady S w w'"
  using assms(1)
proof (cases rule: syscall_cases)
  case (failed w0)
  then show ?thesis by (auto simp: steady_def dest!: fault_props)
next
  case (ran w0)
  from fault_props [OF ran(1)] have f: "files w0 = files w" "faults w = [] \<longrightarrow> faults w0 = []"
    by auto
  from assms(2) [OF f(1) ran(2)] f show ?thesis by (auto simp: steady_def)
qed

lemma os_ReadFile_steady: "os_ReadFile p w = (r, w') \<Longrightarrow> steady S w w'"
  unfolding os_ReadFile_def
  by (erule syscall_steady) (auto split: option.splits node.splits)

lemma fileutil_ReadDir_steady: "fileutil_ReadDir p w = (r, w') \<Longrightarrow> steady S w w'"
  unfolding fileutil_ReadDir_def
  by (erule syscall_steady) (auto split: option.splits node.splits)

lemma file_Close_steady: "file_Close p w = (r, w') \<Longrightarrow> steady S w w'"
  unfolding file_Close_def
  by (erule syscall_steady) auto

lemma fileutil_Fsync_steady: "fileutil_Fsync p w = (r, w') \<Longrightarrow> steady S w w'"
  unfolding fileutil_Fsync_def
  by (erule syscall_steady) auto

lemma fileutil_OpenDir_steady: "fileutil_OpenDir p w = (r, w') \<Longrightarrow> steady S w w'"
  unfolding fileutil_OpenDir_def
  by (erule syscall_steady) (auto split: option.splits node.splits)

lemma runutil_CloseWithLogOnErr_steady: "steady S w (runutil_CloseWithLogOnErr f msg w)"
proof (cases "file_Close f w")
  case (Pair r w1)
  from file_Close_steady [OF Pair] have "steady S w w1" .
  with Pair show ?thesis
    by (cases r) (auto simp: runutil_CloseWithLogOnErr_def intro: steady_trans)
qed

lemma os_RemoveAll_steady:
  assumes "os_RemoveAll q w = (r, w')" and "\<forall>p \<in> S. \<not> prefix q p"
  shows "steady S w w'"
  using assms(1) unfolding os_RemoveAll_def
  by (rule syscall_steady) (use assms(2) in auto)

lemma fold_fmupd_lookup:
  "fmlookup (fold (\<lambda>q fs. fmupd q v fs) qs fs) p = (if p \<in> set qs then Some v else fmlookup fs p)"
  by (induction qs arbitrary: fs) auto

lemma os_MkdirAll_steady:
  assumes "os_MkdirAll q w = (r, w')"
    and "\<forall>p \<in> S. prefix p q \<longrightarrow> fmlookup (files w) p = Some Dir"
  shows "steady S w w'"
  using assms(1) unfolding os_MkdirAll_def
  by (rule syscall_steady) (use assms(2) in \<open>auto simp: fold_fmupd_lookup split: if_splits\<close>)

lemma os_Link_steady:
  assumes "os_Link src dst w = (r, w')" and "dst \<notin> S"
  shows "steady S w w'"
  using assms(1) unfolding os_Link_def
  by (rule syscall_steady) (use assms(2) in \<open>auto split: option.splits node.splits if_splits\<close>)

lemma os_Create_steady:
  assumes "os_Create p w = (r, w')" and "p \<notin> S"
  shows "steady S w w'"
  using assms(1) unfolding os_Create_def
  by (rule syscall_steady) (use assms(2) in \<open>auto split: if_splits\<close>)

lemma json_Encode_steady:
  assumes "json_Encode f c w = (r, w')" and "f \<notin> S"
  shows "steady S w w'"
  using assms
  by (cases "fault w")
    (auto simp: json_Encode_def steady_def dest!: fault_props split: bool.splits)

lemma os_Rename_steady:
  assumes "os_Rename from to w = (r, w')" and "from \<notin> S" and "to \<notin> S"
  shows "steady S w w'"
  using assms(1) unfolding os_Rename_def
  by (rule syscall_steady)
    (use assms(2,3) in \<open>auto split: option.splits node.splits if_splits\<close>)

lemma bucket_Exists_steady: "bucket_Exists name w = (r, w') \<Longrightarrow> steady S w w'"
  by (cases "fault w")
    (auto simp: bucket_Exists_def steady_def dest!: fault_props split: bool.splits)

lemma bucket_Upload_steady: "bucket_Upload name c w = (r, w') \<Longrightarrow> steady S w w'"
  by (cases "fault w")
    (auto simp: bucket_Upload_def steady_def dest!: fault_props split: bool.splits)


subsection \<open>Composite steps\<close>

lemma renameFile_steady:
  assumes "renameFile from to w = (r, w')"
    and "from \<notin> S" and "\<forall>p \<in> S. \<not> prefix to p"
  shows "steady S w w'"
proof -
  from assms(3) have to: "to \<notin> S" by auto
  from assms(1) show ?thesis unfolding renameFile_def
  proof (cases rule: io_bind_cases)
    case (stop e)
    from os_RemoveAll_steady [OF stop(1) assms(3)] show ?thesis .
  next
    case (go x w1)
    note s1 = os_RemoveAll_steady [OF go(1) assms(3)]
    from go(2) show ?thesis
    proof (cases rule: io_bind_cases)
      case (stop e)
      from os_Rename_steady [OF stop(1) assms(2) to] s1 show ?thesis by (rule steady_trans [rotated])
    next
      case (go y w2)
      note s2 = steady_trans [OF s1 os_Rename_steady [OF go(1) assms(2) to]]
      from go(2) show ?thesis
      proof (cases rule: io_bind_cases)
        case (stop e)
        from steady_trans [OF s2 fileutil_OpenDir_steady [OF stop(1)]] show ?thesis .
      next
        case (go pdir w3)
        note s3 = steady_trans [OF s2 fileutil_OpenDir_steady [OF go(1)]]
        show ?thesis
        proof (cases "fileutil_Fsync pdir w3")
          case (Pair r4 w4)
          note s4 = steady_trans [OF s3 fileutil_Fsync_steady [OF Pair]]
          show ?thesis
          proof (cases r4)
            case (Inl e)
            with Pair go(2) have "w' = runutil_CloseWithLogOnErr pdir ''rename file dir close'' w4"
              by simp
            with s4 show ?thesis
              by (auto intro: steady_trans runutil_CloseWithLogOnErr_steady)
          next
            case (Inr u)
            with Pair go(2) have "file_Close pdir w4 = (r, w')" by simp
            from steady_trans [OF s4 file_Close_steady [OF this]] show ?thesis .
          qed
        qed
      qed
    qed
  qed
qed

text \<open>Both meta writers are the same steps on different names and contents.\<close>

lemma write_steps_steady:
  assumes "io_bind (os_Create tmp) (\<lambda>f w.
           case json_Encode f c w of
             (Inl e, w') \<Rightarrow> (Inl e, runutil_CloseWithLogOnErr f msg w')
           | (Inr _, w') \<Rightarrow> io_bind (file_Close f) (\<lambda>_. renameFile tmp to) w') w = (r, w')"
    and "tmp \<notin> S" and "\<forall>p \<in> S. \<not> prefix to p"
  shows "steady S w w'"
  using assms(1)
proof (cases rule: io_bind_cases)
  case (stop e)
  from os_Create_steady [OF stop(1) assms(2)] show ?thesis .
next
  case (go f w1)
  note s1 = os_Create_steady [OF go(1) assms(2)]
  from os_Create_files [OF go(1)] have f: "f = tmp" by auto
  show ?thesis
  proof (cases "json_Encode tmp c w1")
    case (Pair r2 w2)
    note s2 = steady_trans [OF s1 json_Encode_steady [OF Pair assms(2)]]
    show ?thesis
    proof (cases r2)
      case (Inl e)
      with Pair go(2) f have "w' = runutil_CloseWithLogOnErr tmp msg w2" by simp
      with s2 show ?thesis by (auto intro: steady_trans runutil_CloseWithLogOnErr_steady)
    next
      case (Inr u)
      with Pair go(2) f have "io_bind (file_Close tmp) (\<lambda>_. renameFile tmp to) w2 = (r, w')"
        by simp
      then show ?thesis
      proof (cases rule: io_bind_cases)
        case (stop e)
        from steady_trans [OF s2 file_Close_steady [OF stop(1)]] show ?thesis .
      next
        case (go x w3)
        from steady_trans [OF steady_trans [OF s2 file_Close_steady [OF go(1)]]
            renameFile_steady [OF go(2) assms(2,3)]]
        show ?thesis .
      qed
    qed
  qed
qed

lemma WriteMetaFile_steady:
  assumes "WriteMetaFile d meta w = (r, w')"
    and "d @ [MetaFilename @ ''.tmp''] \<notin> S" and "\<forall>p \<in> S. \<not> prefix (d @ [MetaFilename]) p"
  shows "steady S w w'"
  using assms(1) unfolding WriteMetaFile_def Let_def
  by (rule write_steps_steady) (use assms(2,3) in auto)

lemma block_WriteMetaFile_steady:
  assumes "block_WriteMetaFile X d meta w = (r, w')"
    and "d @ [block_MetaFilename X @ ''.tmp''] \<notin> S"
    and "\<forall>p \<in> S. \<not> prefix (d @ [block_MetaFilename X]) p"
  shows "steady S w w'"
  using assms(1) unfolding block_WriteMetaFile_def Let_def
  by (rule write_steps_steady) (use assms(2,3) in auto)

lemma link_files_steady:
  assumes "link_files src dst fns w = (r, w')" and "\<forall>fn \<in> set fns. dst @ fn \<notin> S"
  shows "steady S w w'"
  using assms
proof (induction fns arbitrary: w)
  case Nil
  then show ?case by simp
next
  case (Cons fn fns)
  obtain r1 w1 where l: "os_Link (src @ fn) (dst @ fn) w = (r1, w1)"
    by (cases "os_Link (src @ fn) (dst @ fn) w")
  from Cons.prems(2) have "dst @ fn \<notin> S" by simp
  note s1 = os_Link_steady [OF l this]
  show ?case
  proof (cases r1)
    case (Inl e)
    with Cons.prems(1) l s1 show ?thesis by auto
  next
    case (Inr u)
    with Cons.prems(1) l have "link_files src dst fns w1 = (r, w')" by simp
    from Cons.IH [OF this] Cons.prems(2) s1 show ?thesis by (auto intro: steady_trans)
  qed
qed

lemma wrap_cases:
  assumes "wrap msg m w = (r, w')"
  obtains r0 where "m w = (r0, w')"
  using assms by (cases "m w") (auto simp: wrap_def split: sum.splits)

lemma upload_files_steady:
  "upload_files bdir rels w = (r, w') \<Longrightarrow> steady S w w'"
proof (induction rels arbitrary: w)
  case Nil
  then show ?case by simp
next
  case (Cons rel rels)
  obtain r1 w1 where u: "upload_file bdir rel w = (r1, w1)"
    by (cases "upload_file bdir rel w")
  have s1: "steady S w w1"
    using u unfolding upload_file_def
  proof (cases rule: io_bind_cases)
    case (stop e)
    then show ?thesis by (auto dest: os_ReadFile_steady)
  next
    case (go c w0)
    from steady_trans [OF os_ReadFile_steady [OF go(1)] bucket_Upload_steady [OF go(2)]]
    show ?thesis .
  qed
  show ?case
  proof (cases r1)
    case (Inl e)
    with Cons.prems u s1 show ?thesis by auto
  next
    case (Inr x)
    with Cons.prems u have "upload_files bdir rels w1 = (r, w')" by simp
    from steady_trans [OF s1 Cons.IH [OF this]] show ?thesis .
  qed
qed

lemma block_Upload_steady:
  "block_Upload X bdir w = (r, w') \<Longrightarrow> steady S w w'"
  by (auto simp: block_Upload_def Let_def dest: upload_files_steady split: if_splits)


subsection \<open>The upload of one block leaves the block directories alone\<close>

lemma scan_paths_root [simp]: "dir s \<in> scan_paths X s"
  by (simp add: scan_paths_def)

lemma scan_paths_thanos:
  assumes "IsBlockDir X ''thanos'' = None" and "p \<in> scan_paths X s"
  shows "\<not> prefix (dir s @ ''thanos'' # rest) p"
    and "prefix p (dir s @ ''thanos'' # rest) \<Longrightarrow> p = dir s"
    and "p \<noteq> dir s @ ''thanos'' # rest"
  using assms by (auto simp: scan_paths_def prefix_def Cons_eq_append_conv append_eq_Cons_conv)

lemma steady_root:
  "steady (scan_paths X s) w w' \<Longrightarrow> fmlookup (files w) (dir s) = Some Dir \<Longrightarrow>
   fmlookup (files w') (dir s) = Some Dir"
  by (auto simp: steady_def)

lemma hardlinkBlock_steady:
  assumes "hardlinkBlock X src (dir s @ ''thanos'' # rest) w = (r, w')"
    and "IsBlockDir X ''thanos'' = None"
    and "fmlookup (files w) (dir s) = Some Dir"
  shows "steady (scan_paths X s) w w'"
proof -
  let ?S = "scan_paths X s" and ?dst = "dir s @ ''thanos'' # rest"
  note th = scan_paths_thanos [OF assms(2)]
  from assms(1) show ?thesis unfolding hardlinkBlock_def Let_def
  proof (cases rule: io_bind_cases)
    case (stop e)
    from stop(1) obtain r0 where "os_MkdirAll (?dst @ [block_ChunksDirname X]) w = (r0, w')"
      by (rule wrap_cases)
    then show ?thesis
      by (rule os_MkdirAll_steady) (use th(2) [of _ s "rest @ [block_ChunksDirname X]"] assms(3) in auto)
  next
    case (go x w1)
    from go(1) obtain r0 where "os_MkdirAll (?dst @ [block_ChunksDirname X]) w = (r0, w1)"
      by (rule wrap_cases)
    then have s1: "steady ?S w w1"
      by (rule os_MkdirAll_steady) (use th(2) [of _ s "rest @ [block_ChunksDirname X]"] assms(3) in auto)
    from go(2) show ?thesis
    proof (cases rule: io_bind_cases)
      case (stop e)
      from stop(1) obtain r0 where "fileutil_ReadDir (src @ [block_ChunksDirname X]) w1 = (r0, w')"
        by (rule wrap_cases)
      from steady_trans [OF s1 fileutil_ReadDir_steady [OF this]] show ?thesis .
    next
      case (go names w2)
      from go(1) obtain r0 where "fileutil_ReadDir (src @ [block_ChunksDirname X]) w1 = (r0, w2)"
        by (rule wrap_cases)
      note s2 = steady_trans [OF s1 fileutil_ReadDir_steady [OF this]]
      from go(2) have "steady ?S w2 w'"
        by (rule link_files_steady) (use th(3) in auto)
      with s2 show ?thesis by (rule steady_trans)
    qed
  qed
qed

lemma sync_staged_steady:
  assumes "sync_staged X s meta d (dir s @ ''thanos'' # rest) w = (r, w')"
    and "IsBlockDir X ''thanos'' = None"
    and "fmlookup (files w) (dir s) = Some Dir"
  shows "steady (scan_paths X s) w w'"
proof -
  let ?S = "scan_paths X s" and ?up = "dir s @ ''thanos'' # rest"
  note th = scan_paths_thanos [OF assms(2)]
  from assms(1) show ?thesis unfolding sync_staged_def Let_def
  proof (cases rule: io_bind_cases)
    case (stop e)
    from stop(1) obtain r0 where "hardlinkBlock X d ?up w = (r0, w')" by (rule wrap_cases)
    from hardlinkBlock_steady [OF this assms(2,3)] show ?thesis .
  next
    case (go x w1)
    from go(1) obtain r0 where "hardlinkBlock X d ?up w = (r0, w1)" by (rule wrap_cases)
    note s1 = hardlinkBlock_steady [OF this assms(2,3)]
    from go(2) show ?thesis
    proof (cases rule: io_bind_cases)
      case (stop e)
      from stop(1) obtain r0 meta2 where "block_WriteMetaFile X ?up meta2 w1 = (r0, w')"
        by (rule wrap_cases)
      then have "steady ?S w1 w'"
        by (rule block_WriteMetaFile_steady)
          (use th(1) [of _ s "rest @ [block_MetaFilename X]"]
               th(3) [of _ s "rest @ [block_MetaFilename X @ ''.tmp'']"] in auto)
      with s1 show ?thesis by (rule steady_trans)
    next
      case (go y w2)
      from go(1) obtain r0 meta2 where "block_WriteMetaFile X ?up meta2 w1 = (r0, w2)"
        by (rule wrap_cases)
      then have "steady ?S w1 w2"
        by (rule block_WriteMetaFile_steady)
          (use th(1) [of _ s "rest @ [block_MetaFilename X]"]
               th(3) [of _ s "rest @ [block_MetaFilename X @ ''.tmp'']"] in auto)
      from steady_trans [OF steady_trans [OF s1 this] block_Upload_steady [OF go(2)]]
      show ?thesis .
    qed
  qed
qed

lemma sync_steady:
  assumes "sync X s meta w = (r, w')"
    and "IsBlockDir X ''thanos'' = None"
    and "fmlookup (files w) (dir s) = Some Dir"
  shows "steady (scan_paths X s) w w'"
proof (cases "1 < Compaction_Level meta")
  case True
  with assms(1) show ?thesis by (simp add: sync_def)
next
  case False
  let ?S = "scan_paths X s"
  let ?id = "ULID_String X (ULID meta)"
  let ?up = "dir s @ [''thanos'', ''upload'', ?id]"
  note th = scan_paths_thanos [OF assms(2)]
  obtain r1 w1 where ex: "bucket_Exists [?id, block_MetaFilename X] w = (r1, w1)"
    by (cases "bucket_Exists [?id, block_MetaFilename X] w")
  note s1 = bucket_Exists_steady [OF ex, of ?S]
  show ?thesis
  proof (cases r1)
    case (Inl e)
    with assms(1) False ex s1 show ?thesis by (simp add: sync_def)
  next
    case (Inr ok)
    show ?thesis
    proof (cases ok)
      case True
      with assms(1) False ex Inr s1 show ?thesis by (simp add: sync_def)
    next
      case nok: False
      let ?w2 = "log (Log Info ''upload new block'' (Some (ULID meta)) None) w1"
      have s2: "steady ?S w ?w2" using s1 by (auto intro: steady_trans)
      obtain r3 w3 where rm: "os_RemoveAll ?up ?w2 = (r3, w3)"
        by (cases "os_RemoveAll ?up ?w2")
      have "steady ?S ?w2 w3"
        using rm by (rule os_RemoveAll_steady) (use th(1) [of _ s "[''upload'', ?id]"] in auto)
      with s2 have s3: "steady ?S w w3" by (rule steady_trans)
      show ?thesis
      proof (cases r3)
        case (Inl e)
        with assms(1) False ex Inr nok rm s3 show ?thesis by (simp add: sync_def Let_def)
      next
        case r3: (Inr u3)
        obtain r4 w4 where mk: "os_MkdirAll ?up w3 = (r4, w4)"
          by (cases "os_MkdirAll ?up w3")
        have "steady ?S w3 w4"
          using mk
          by (rule os_MkdirAll_steady)
            (use th(2) [of _ s "[''upload'', ?id]"] steady_root [OF s3 assms(3)] in auto)
        with s3 have s4: "steady ?S w w4" by (rule steady_trans)
        show ?thesis
        proof (cases r4)
          case (Inl e)
          with assms(1) False ex Inr nok rm r3 mk s4 show ?thesis
            by (simp add: sync_def Let_def)
        next
          case r4: (Inr u4)
          obtain r5 w5 where st: "sync_staged X s meta (dir s @ [?id]) ?up w4 = (r5, w5)"
            by (cases "sync_staged X s meta (dir s @ [?id]) ?up w4")
          from sync_staged_steady [of X s meta "dir s @ [?id]" "[''upload'', ?id]" w4 r5 w5]
            st assms(2) steady_root [OF s4 assms(3)]
          have "steady ?S w4 w5" by simp
          with s4 have s5: "steady ?S w w5" by (rule steady_trans)
          obtain r6 w6 where cl: "os_RemoveAll ?up w5 = (r6, w6)"
            by (cases "os_RemoveAll ?up w5")
          have "steady ?S w5 w6"
            using cl by (rule os_RemoveAll_steady) (use th(1) [of _ s "[''upload'', ?id]"] in auto)
          with s5 have s6: "steady ?S w w6" by (rule steady_trans)
          from assms(1) False ex Inr nok rm r3 mk r4 st cl
          have "w' = w6 \<or> (\<exists>l. w' = log l w6)"
            by (cases r6) (auto simp: sync_def Let_def)
          with s6 show ?thesis by (auto intro: steady_trans)
        qed
      qed
    qed
  qed
qed


subsection \<open>Scanning without faults\<close>

lemma os_Stat_none:
  "faults w = [] \<Longrightarrow>
   os_Stat p w =
     (case fmlookup (files w) p of None \<Rightarrow> Inl (missing (files w) p) | Some n \<Rightarrow> Inr n, w)"
  by (simp add: os_Stat_def syscall_none split: option.splits)

lemma os_ReadFile_none:
  "faults w = [] \<Longrightarrow>
   os_ReadFile p w =
     (case fmlookup (files w) p of
        None \<Rightarrow> Inl (missing (files w) p)
      | Some Dir \<Rightarrow> Inl EISDIR
      | Some (File c) \<Rightarrow> Inr c, w)"
  by (simp add: os_ReadFile_def syscall_none split: option.splits node.splits)

lemma fileutil_ReadDir_none:
  "faults w = [] \<Longrightarrow> fmlookup (files w) p = Some Dir \<Longrightarrow>
   fileutil_ReadDir p w = (Inr (children (files w) p), w)"
  by (simp add: fileutil_ReadDir_def syscall_none)

lemma scan_entry_none:
  assumes "faults w = []"
  shows "\<exists>w'. scan_entry X s n w = (block_at X s (files w) n, w')
     \<and> files w' = files w \<and> faults w' = [] \<and> calls w' = calls w \<and> objects w' = objects w"
  using assms
  by (auto simp: scan_entry_def block_at_def os_Stat_none block_ReadMetaFile_def io_bind_def
      os_ReadFile_none IsDir_def log_def io_fail_def io_return_def
      split: option.splits node.splits)

lemma block_at_agree:
  assumes "\<forall>p \<in> scan_paths X s. fmlookup fs' p = fmlookup fs p"
  shows "block_at X s fs' n = block_at X s fs n"
proof (cases "IsBlockDir X n")
  case None
  then show ?thesis by (simp add: block_at_def)
next
  case (Some u)
  then have "dir s @ [n] \<in> scan_paths X s" "dir s @ [n, block_MetaFilename X] \<in> scan_paths X s"
    by (auto simp: scan_paths_def)
  with assms have "fmlookup fs' (dir s @ [n]) = fmlookup fs (dir s @ [n])"
    "fmlookup fs' (dir s @ [n, block_MetaFilename X]) = fmlookup fs (dir s @ [n, block_MetaFilename X])"
    by blast+
  then show ?thesis by (simp add: block_at_def split: option.splits)
qed

lemma steady_block_at:
  "steady (scan_paths X s) w w' \<Longrightarrow> block_at X s (files w') n = block_at X s (files w) n"
  by (rule block_at_agree) (simp add: steady_def)

text \<open>
  With no fault, and a closure that leaves the block directories alone, the blocks handed
  to the closure are those that the file system holds at the start.
\<close>

lemma iterNames_blocks:
  assumes f: "\<And>m a w r w'. f m a w = (r, w') \<Longrightarrow> fmlookup (files w) (dir s) = Some Dir \<Longrightarrow>
                steady (scan_paths X s) w w'"
    and "iterNames X s (recording f) ns (vs0, a) w = (Inr (vs, a'), w')"
    and "faults w = []"
    and "fmlookup (files w) (dir s) = Some Dir"
  shows "\<exists>new. vs = vs0 @ new
    \<and> map fst new = List.map_filter (block_at X s (files w)) ns
    \<and> steady (scan_paths X s) w w'"
  using assms(2-)
proof (induction ns arbitrary: vs0 a w)
  case Nil
  then show ?case by simp
next
  case (Cons n ns)
  from scan_entry_none [OF Cons.prems(2), of X s n] obtain w1 where
    se: "scan_entry X s n w = (block_at X s (files w) n, w1)" and
    w1: "files w1 = files w" "faults w1 = []"
    by blast
  have s1: "steady (scan_paths X s) w w1"
    using w1 by (simp add: steady_def)
  show ?case
  proof (cases "block_at X s (files w) n")
    case None
    with Cons.prems(1) se
    have "iterNames X s (recording f) ns (vs0, a) w1 = (Inr (vs, a'), w')" by simp
    from Cons.IH [OF this w1(2)] Cons.prems(3) w1(1) None s1
    show ?thesis by (auto intro: steady_trans)
  next
    case (Some m)
    obtain r2 w2 where fm: "f m a w1 = (r2, w2)" by (cases "f m a w1")
    with Cons.prems(1) se Some obtain a2 where r2: "r2 = Inr a2"
      and rest: "iterNames X s (recording f) ns (vs0 @ [(m, w1, w2)], a2) w2 = (Inr (vs, a'), w')"
      by (cases r2) (auto simp: recording_apply)
    from f [OF fm] Cons.prems(3) w1(1) have s2: "steady (scan_paths X s) w1 w2" by simp
    with w1(2) have nf: "faults w2 = []" by (simp add: steady_def)
    from steady_root [OF s2] Cons.prems(3) w1(1)
    have root: "fmlookup (files w2) (dir s) = Some Dir" by simp
    from Cons.IH [OF rest nf root] obtain new where
      ih: "vs = (vs0 @ [(m, w1, w2)]) @ new"
        "map fst new = List.map_filter (block_at X s (files w2)) ns"
        "steady (scan_paths X s) w2 w'"
      by blast
    have s12: "steady (scan_paths X s) w w2" using s1 s2 by (rule steady_trans)
    have eq: "List.map_filter (block_at X s (files w2)) ns
              = List.map_filter (block_at X s (files w)) ns"
      using steady_block_at [OF s12] by (simp add: List.map_filter_def)
    have "map fst ((m, w1, w2) # new) = List.map_filter (block_at X s (files w)) (n # ns)"
      using ih(2) eq Some by simp
    moreover have "steady (scan_paths X s) w w'" using s12 ih(3) by (rule steady_trans)
    ultimately show ?thesis using ih(1) by (intro exI [of _ "(m, w1, w2) # new"]) simp
  qed
qed

text \<open>When every block found is in the set of uploaded IDs, the scan calls nothing.\<close>

lemma iterNames_all_uploaded:
  assumes "faults w = []"
    and "\<forall>m \<in> set (List.map_filter (block_at X s (files w)) ns). ULID m \<in> has"
  shows "\<exists>w'. iterNames X s (Sync_visit X s has) ns meta w
      = (Inr (meta\<lparr>Uploaded := Uploaded meta
                     @ map ULID (List.map_filter (block_at X s (files w)) ns)\<rparr>), w')
     \<and> files w' = files w \<and> faults w' = [] \<and> calls w' = calls w \<and> objects w' = objects w"
  using assms
proof (induction ns arbitrary: meta w)
  case Nil
  then show ?case by simp
next
  case (Cons n ns)
  from scan_entry_none [OF Cons.prems(1), of X s n] obtain w1 where
    se: "scan_entry X s n w = (block_at X s (files w) n, w1)" and
    w1: "files w1 = files w" "faults w1 = []" "calls w1 = calls w" "objects w1 = objects w"
    by blast
  show ?case
  proof (cases "block_at X s (files w) n")
    case None
    with Cons.prems(2) w1(1)
    have "\<forall>m \<in> set (List.map_filter (block_at X s (files w1)) ns). ULID m \<in> has"
      by simp
    from Cons.IH [OF w1(2) this, of meta] se None w1 show ?thesis
      by auto
  next
    case (Some m)
    with Cons.prems(2) w1(1)
    have m: "ULID m \<in> has"
      and rest: "\<forall>m \<in> set (List.map_filter (block_at X s (files w1)) ns). ULID m \<in> has"
      by simp_all
    from Cons.IH [OF w1(2) rest, of "meta\<lparr>Uploaded := Uploaded meta @ [ULID m]\<rparr>"]
      se Some w1 m
    show ?thesis
      by (auto simp: Sync_visit_def)
  qed
qed


subsection \<open>The names of the block directories\<close>

lemma children_set:
  "set (children fs d) = {n. fmlookup fs (d @ [n]) \<noteq> None}"
proof -
  have "last ` {q. q |\<in>| fmdom fs \<and> q \<noteq> [] \<and> butlast q = d} = {n. fmlookup fs (d @ [n]) \<noteq> None}"
  proof (intro set_eqI iffI)
    fix n assume "n \<in> last ` {q. q |\<in>| fmdom fs \<and> q \<noteq> [] \<and> butlast q = d}"
    then obtain q where q: "q |\<in>| fmdom fs" "q \<noteq> []" "butlast q = d" "n = last q" by auto
    then have "q = d @ [n]" by (metis append_butlast_last_id)
    with q(1) show "n \<in> {n. fmlookup fs (d @ [n]) \<noteq> None}"
      by (auto simp: fmlookup_dom_iff)
  next
    fix n assume "n \<in> {n. fmlookup fs (d @ [n]) \<noteq> None}"
    then have "d @ [n] |\<in>| fmdom fs" by (auto simp: fmlookup_dom_iff)
    then have "d @ [n] \<in> {q. q |\<in>| fmdom fs \<and> q \<noteq> [] \<and> butlast q = d}" by simp
    then show "n \<in> last ` {q. q |\<in>| fmdom fs \<and> q \<noteq> [] \<and> butlast q = d}"
      by (metis (no_types, lifting) image_eqI last_snoc)
  qed
  moreover have "{q. q |\<in>| fmdom fs \<and> q \<noteq> [] \<and> butlast q = d}
                   = {q. q \<noteq> [] \<and> butlast q = d} \<inter> fset (fmdom fs)"
    by auto
  ultimately show ?thesis by (simp add: children_def)
qed

lemma children_sorted: "sorted (children fs d)" "distinct (children fs d)"
  by (simp_all add: children_def sorted_list_of_fset.rep_eq)

lemma map_filter_filter:
  "(\<And>x. \<not> P x \<Longrightarrow> f x = None) \<Longrightarrow> List.map_filter f (filter P xs) = List.map_filter f xs"
  by (induction xs) (auto split: option.splits)

lemma local_blocks_agree:
  assumes "\<forall>p \<in> scan_paths X s. fmlookup fs' p = fmlookup fs p"
  shows "local_blocks X s fs' = local_blocks X s fs"
proof -
  let ?P = "\<lambda>n. IsBlockDir X n \<noteq> None"
  have names: "filter ?P (children fs' (dir s)) = filter ?P (children fs (dir s))"
  proof (rule sorted_distinct_set_unique)
    show "set (filter ?P (children fs' (dir s))) = set (filter ?P (children fs (dir s)))"
    proof -
      have "fmlookup fs' (dir s @ [n]) = fmlookup fs (dir s @ [n])" if "?P n" for n
        using assms that by (auto simp: scan_paths_def)
      then show ?thesis by (auto simp: children_set)
    qed
  qed (simp_all add: children_sorted sorted_wrt_filter)
  have none: "block_at X s fs n = None" if "\<not> ?P n" for n fs
    using that by (simp add: block_at_def)
  have "local_blocks X s fs' = List.map_filter (block_at X s fs') (filter ?P (children fs' (dir s)))"
    by (simp add: local_blocks_def map_filter_filter none)
  also have "\<dots> = List.map_filter (block_at X s fs) (filter ?P (children fs (dir s)))"
    using block_at_agree [OF assms] names by (simp add: List.map_filter_def)
  also have "\<dots> = local_blocks X s fs"
    by (simp add: local_blocks_def map_filter_filter none)
  finally show ?thesis .
qed

subsection \<open>Writing without faults\<close>

lemma WriteMetaFile_none:
  assumes "faults w = []"
    and "fmlookup (files w) d = Some Dir"
    and "fmlookup (files w) (d @ [MetaFilename @ ''.tmp'']) \<noteq> Some Dir"
  shows "\<exists>w'. WriteMetaFile d meta w = (Inr (), w')
     \<and> faults w' = [] \<and> calls w' = calls w \<and> objects w' = objects w"
proof -
  have "\<not> prefix (d @ [MetaFilename]) d" by (simp add: prefix_def)
  moreover have "d @ [MetaFilename] \<noteq> d" "d @ [MetaFilename @ ''.tmp''] \<noteq> d" by simp_all
  ultimately show ?thesis
    using assms tmp_not_below_target [of d MetaFilename]
    by (simp add: WriteMetaFile_def Let_def io_bind_def os_Create_def json_Encode_def
        file_Close_def renameFile_def os_RemoveAll_def os_Rename_def fileutil_OpenDir_def
        fileutil_Fsync_def syscall_none)
qed


subsection \<open>Two passes\<close>

lemma Sync_load_none:
  assumes "faults w = []" and "Sync_load s w = (old, wa)"
  shows "files wa = files w \<and> faults wa = [] \<and> calls wa = calls w \<and> objects wa = objects w"
  using assms
  by (auto simp: Sync_load_def ReadMetaFile_def io_bind_def os_ReadFile_none io_fail_def
      io_return_def log_def split: option.splits node.splits if_splits)

lemma Sync_visit_steady:
  assumes "Sync_visit X s has m meta w = (r, w')"
    and "IsBlockDir X ''thanos'' = None"
    and "fmlookup (files w) (dir s) = Some Dir"
  shows "steady (scan_paths X s) w w'"
proof (cases "ULID m \<in> has")
  case True
  with assms(1) show ?thesis by (simp add: Sync_visit_def)
next
  case False
  obtain r1 w1 where sy: "sync X s m w = (r1, w1)" by (cases "sync X s m w")
  from sync_steady [OF sy assms(2,3)] have "steady (scan_paths X s) w w1" .
  moreover from assms(1) False sy have "w' = w1 \<or> (\<exists>l. w' = log l w1)"
    by (cases r1) (auto simp: Sync_visit_def)
  ultimately show ?thesis by (auto intro: steady_trans)
qed

lemma ReadDir_ok_none:
  assumes "faults w = []" and "fileutil_ReadDir p w = (Inr names, w')"
  shows "fmlookup (files w) p = Some Dir \<and> names = children (files w) p \<and> w' = w"
  using assms
  by (auto simp: fileutil_ReadDir_def syscall_none split: option.splits node.splits)

subsection \<open>Steps that do not reach the bucket\<close>

lemma offline_refl [simp]: "offline w w"
  by (simp add: offline_def)

lemma offline_trans: "offline w w1 \<Longrightarrow> offline w1 w2 \<Longrightarrow> offline w w2"
  by (simp add: offline_def)

lemma offline_log [simp]: "offline w (log l w)"
  by (simp add: offline_def log_def)

lemma syscall_offline:
  assumes "syscall f w = (r, w')"
    and "\<And>w0 r. f w0 = (r, w') \<Longrightarrow> offline w0 w'"
  shows "offline w w'"
  using assms(1)
proof (cases rule: syscall_cases)
  case (failed w0)
  then show ?thesis by (auto simp: offline_def dest!: fault_props)
next
  case (ran w0)
  from fault_props [OF ran(1)] assms(2) [OF ran(2)] show ?thesis by (auto simp: offline_def)
qed

lemma fileutil_ReadDir_offline: "fileutil_ReadDir p w = (r, w') \<Longrightarrow> offline w w'"
  unfolding fileutil_ReadDir_def
  by (erule syscall_offline) (auto split: option.splits node.splits)

lemma file_Close_offline: "file_Close p w = (r, w') \<Longrightarrow> offline w w'"
  unfolding file_Close_def by (erule syscall_offline) auto

lemma fileutil_Fsync_offline: "fileutil_Fsync p w = (r, w') \<Longrightarrow> offline w w'"
  unfolding fileutil_Fsync_def by (erule syscall_offline) auto

lemma fileutil_OpenDir_offline: "fileutil_OpenDir p w = (r, w') \<Longrightarrow> offline w w'"
  unfolding fileutil_OpenDir_def
  by (erule syscall_offline) (auto split: option.splits node.splits)

lemma runutil_CloseWithLogOnErr_offline: "offline w (runutil_CloseWithLogOnErr f msg w)"
proof (cases "file_Close f w")
  case (Pair r w1)
  from file_Close_offline [OF Pair] Pair show ?thesis
    by (cases r) (auto simp: runutil_CloseWithLogOnErr_def intro: offline_trans)
qed

lemma os_RemoveAll_offline: "os_RemoveAll q w = (r, w') \<Longrightarrow> offline w w'"
  unfolding os_RemoveAll_def by (erule syscall_offline) (auto simp: offline_def)

lemma os_MkdirAll_offline: "os_MkdirAll q w = (r, w') \<Longrightarrow> offline w w'"
  unfolding os_MkdirAll_def
  by (erule syscall_offline) (auto simp: offline_def split: if_splits)

lemma os_Link_offline: "os_Link src dst w = (r, w') \<Longrightarrow> offline w w'"
  unfolding os_Link_def
  by (erule syscall_offline) (auto simp: offline_def split: option.splits node.splits if_splits)

lemma os_Create_offline: "os_Create p w = (r, w') \<Longrightarrow> offline w w'"
  unfolding os_Create_def
  by (erule syscall_offline) (auto simp: offline_def split: if_splits)

lemma json_Encode_offline: "json_Encode f c w = (r, w') \<Longrightarrow> offline w w'"
  by (cases "fault w")
    (auto simp: json_Encode_def offline_def dest!: fault_props split: bool.splits)

lemma os_Rename_offline: "os_Rename from to w = (r, w') \<Longrightarrow> offline w w'"
  unfolding os_Rename_def
  by (erule syscall_offline) (auto simp: offline_def split: option.splits node.splits if_splits)

lemma renameFile_offline:
  assumes "renameFile from to w = (r, w')"
  shows "offline w w'"
  using assms unfolding renameFile_def
proof (cases rule: io_bind_cases)
  case (stop e)
  then show ?thesis by (auto dest: os_RemoveAll_offline)
next
  case (go x w1)
  note s1 = os_RemoveAll_offline [OF go(1)]
  from go(2) show ?thesis
  proof (cases rule: io_bind_cases)
    case (stop e)
    from offline_trans [OF s1 os_Rename_offline [OF stop(1)]] show ?thesis .
  next
    case (go y w2)
    note s2 = offline_trans [OF s1 os_Rename_offline [OF go(1)]]
    from go(2) show ?thesis
    proof (cases rule: io_bind_cases)
      case (stop e)
      from offline_trans [OF s2 fileutil_OpenDir_offline [OF stop(1)]] show ?thesis .
    next
      case (go pdir w3)
      note s3 = offline_trans [OF s2 fileutil_OpenDir_offline [OF go(1)]]
      show ?thesis
      proof (cases "fileutil_Fsync pdir w3")
        case (Pair r4 w4)
        note s4 = offline_trans [OF s3 fileutil_Fsync_offline [OF Pair]]
        show ?thesis
        proof (cases r4)
          case (Inl e)
          with Pair go(2) have "w' = runutil_CloseWithLogOnErr pdir ''rename file dir close'' w4"
            by simp
          with s4 show ?thesis
            by (auto intro: offline_trans runutil_CloseWithLogOnErr_offline)
        next
          case (Inr u)
          with Pair go(2) have "file_Close pdir w4 = (r, w')" by simp
          from offline_trans [OF s4 file_Close_offline [OF this]] show ?thesis .
        qed
      qed
    qed
  qed
qed

lemma block_WriteMetaFile_offline:
  assumes "block_WriteMetaFile X d meta w = (r, w')"
  shows "offline w w'"
  using assms unfolding block_WriteMetaFile_def Let_def
proof (cases rule: io_bind_cases)
  case (stop e)
  then show ?thesis by (auto dest: os_Create_offline)
next
  case (go f w1)
  note s1 = os_Create_offline [OF go(1)]
  show ?thesis
  proof (cases "json_Encode f (BlockMetaJSON meta) w1")
    case (Pair r2 w2)
    note s2 = offline_trans [OF s1 json_Encode_offline [OF Pair]]
    show ?thesis
    proof (cases r2)
      case (Inl e)
      with Pair go(2) have "w' = runutil_CloseWithLogOnErr f ''write meta file close'' w2" by simp
      with s2 show ?thesis by (auto intro: offline_trans runutil_CloseWithLogOnErr_offline)
    next
      case (Inr u)
      with Pair go(2)
      have "io_bind (file_Close f)
              (\<lambda>_. renameFile (d @ [block_MetaFilename X @ ''.tmp'']) (d @ [block_MetaFilename X]))
              w2 = (r, w')"
        by simp
      then show ?thesis
      proof (cases rule: io_bind_cases)
        case (stop e)
        from offline_trans [OF s2 file_Close_offline [OF stop(1)]] show ?thesis .
      next
        case (go x w3)
        from offline_trans [OF offline_trans [OF s2 file_Close_offline [OF go(1)]]
            renameFile_offline [OF go(2)]]
        show ?thesis .
      qed
    qed
  qed
qed

lemma link_files_offline:
  "link_files src dst fns w = (r, w') \<Longrightarrow> offline w w'"
proof (induction fns arbitrary: w)
  case Nil
  then show ?case by simp
next
  case (Cons fn fns)
  obtain r1 w1 where l: "os_Link (src @ fn) (dst @ fn) w = (r1, w1)"
    by (cases "os_Link (src @ fn) (dst @ fn) w")
  note s1 = os_Link_offline [OF l]
  show ?case
  proof (cases r1)
    case (Inl e)
    with Cons.prems l s1 show ?thesis by auto
  next
    case (Inr u)
    with Cons.prems l have "link_files src dst fns w1 = (r, w')" by simp
    from offline_trans [OF s1 Cons.IH [OF this]] show ?thesis .
  qed
qed

lemma hardlinkBlock_offline:
  assumes "hardlinkBlock X src dst w = (r, w')"
  shows "offline w w'"
  using assms unfolding hardlinkBlock_def Let_def
proof (cases rule: io_bind_cases)
  case (stop e)
  from stop(1) obtain r0 where "os_MkdirAll (dst @ [block_ChunksDirname X]) w = (r0, w')"
    by (rule wrap_cases)
  then show ?thesis by (rule os_MkdirAll_offline)
next
  case (go x w1)
  from go(1) obtain r0 where "os_MkdirAll (dst @ [block_ChunksDirname X]) w = (r0, w1)"
    by (rule wrap_cases)
  then have s1: "offline w w1" by (rule os_MkdirAll_offline)
  from go(2) show ?thesis
  proof (cases rule: io_bind_cases)
    case (stop e)
    from stop(1) obtain r0 where "fileutil_ReadDir (src @ [block_ChunksDirname X]) w1 = (r0, w')"
      by (rule wrap_cases)
    from offline_trans [OF s1 fileutil_ReadDir_offline [OF this]] show ?thesis .
  next
    case (go names w2)
    from go(1) obtain r0 where "fileutil_ReadDir (src @ [block_ChunksDirname X]) w1 = (r0, w2)"
      by (rule wrap_cases)
    from offline_trans [OF offline_trans [OF s1 fileutil_ReadDir_offline [OF this]]
        link_files_offline [OF go(2)]]
    show ?thesis .
  qed
qed


subsection \<open>What the staging directory holds\<close>

lemma files_below_set:
  "set (files_below fs d) = {rel. rel \<noteq> [] \<and> is_file (fmlookup fs (d @ rel))}"
proof -
  let ?Q = "{q. q |\<in>| fmdom fs \<and> strict_prefix d q \<and> is_file (fmlookup fs q)}"
  have "drop (length d) ` ?Q = {rel. rel \<noteq> [] \<and> is_file (fmlookup fs (d @ rel))}"
  proof (intro set_eqI iffI)
    fix rel assume "rel \<in> drop (length d) ` ?Q"
    then obtain q where q: "strict_prefix d q" "is_file (fmlookup fs q)" "rel = drop (length d) q"
      by auto
    from q(1) obtain z where "q = d @ z" "z \<noteq> []"
      by (auto simp: strict_prefix_def prefix_def)
    with q show "rel \<in> {rel. rel \<noteq> [] \<and> is_file (fmlookup fs (d @ rel))}" by simp
  next
    fix rel assume "rel \<in> {rel. rel \<noteq> [] \<and> is_file (fmlookup fs (d @ rel))}"
    then have rel: "rel \<noteq> []" "is_file (fmlookup fs (d @ rel))" by auto
    then have "d @ rel |\<in>| fmdom fs"
      by (auto simp: is_file_def fmlookup_dom_iff split: option.splits)
    with rel have "d @ rel \<in> ?Q" by (auto simp: strict_prefix_def)
    then have "drop (length d) (d @ rel) \<in> drop (length d) ` ?Q" by (rule imageI)
    then show "rel \<in> drop (length d) ` ?Q" by simp
  qed
  moreover have "?Q = {q. strict_prefix d q \<and> is_file (fmlookup fs q)} \<inter> fset (fmdom fs)"
    by auto
  ultimately show ?thesis by (simp add: files_below_def)
qed

lemma children_agree:
  assumes "\<And>n. fmlookup fs' (d @ [n]) = fmlookup fs (d @ [n])"
  shows "children fs' d = children fs d"
  by (rule sorted_distinct_set_unique) (simp_all add: children_sorted children_set assms)

lemma fileutil_ReadDir_ok:
  assumes "fileutil_ReadDir p w = (Inr names, w')"
  shows "names = children (files w) p \<and> files w' = files w"
  using assms unfolding fileutil_ReadDir_def
  by (elim syscall_cases) (auto dest!: fault_props split: option.splits node.splits)

lemma os_MkdirAll_lookup:
  assumes "os_MkdirAll q w = (r, w')" and "\<not> prefix p q"
  shows "fmlookup (files w') p = fmlookup (files w) p"
  using assms unfolding os_MkdirAll_def
  by (elim syscall_cases) (auto simp: fold_fmupd_lookup dest!: fault_props split: if_splits)

lemma os_RemoveAll_lookup:
  assumes "os_RemoveAll q w = (r, w')" and "\<not> prefix q p"
  shows "fmlookup (files w') p = fmlookup (files w) p"
  using os_RemoveAll_files [OF assms(1)] assms(2) by auto

lemma os_Link_ok:
  assumes "os_Link src dst w = (Inr (), w')"
  shows "\<exists>c. fmlookup (files w) src = Some (File c) \<and> fmlookup (files w) dst = None
           \<and> files w' = fmupd dst (File c) (files w)"
  using assms unfolding os_Link_def
  by (elim syscall_cases) (auto dest!: fault_props split: option.splits node.splits if_splits)

text \<open>Links only add names: what was there stays, and every listed file gets its link.\<close>

lemma link_files_ok:
  assumes "link_files src dst fns w = (Inr (), w')"
    and "\<forall>fn \<in> set fns. \<forall>fn' \<in> set fns. src @ fn' \<noteq> dst @ fn"
  shows "(\<forall>p x. fmlookup (files w) p = Some x \<longrightarrow> fmlookup (files w') p = Some x)
    \<and> (\<forall>fn \<in> set fns. \<exists>c. fmlookup (files w) (src @ fn) = Some (File c)
           \<and> fmlookup (files w') (dst @ fn) = Some (File c))"
  using assms
proof (induction fns arbitrary: w)
  case Nil
  then show ?case by simp
next
  case (Cons fn fns)
  obtain r1 w1 where l: "os_Link (src @ fn) (dst @ fn) w = (r1, w1)"
    by (cases "os_Link (src @ fn) (dst @ fn) w")
  with Cons.prems(1) obtain u where r1: "r1 = Inr u"
    and rest: "link_files src dst fns w1 = (Inr (), w')"
    by (cases r1) auto
  from l r1 have "os_Link (src @ fn) (dst @ fn) w = (Inr (), w1)" by simp
  from os_Link_ok [OF this] obtain c where
    c: "fmlookup (files w) (src @ fn) = Some (File c)" "fmlookup (files w) (dst @ fn) = None"
      "files w1 = fmupd (dst @ fn) (File c) (files w)"
    by blast
  have mono1: "fmlookup (files w1) p = Some x" if "fmlookup (files w) p = Some x" for p x
  proof (cases "p = dst @ fn")
    case True
    with that c(2) show ?thesis by simp
  next
    case False
    with that c(3) show ?thesis by simp
  qed
  from Cons.prems(2) have sep: "\<forall>fn \<in> set fns. \<forall>fn' \<in> set fns. src @ fn' \<noteq> dst @ fn"
    by simp
  from Cons.IH [OF rest sep] have
    mono2: "\<And>p x. fmlookup (files w1) p = Some x \<Longrightarrow> fmlookup (files w') p = Some x" and
    ih: "\<forall>fn' \<in> set fns. \<exists>c. fmlookup (files w1) (src @ fn') = Some (File c)
           \<and> fmlookup (files w') (dst @ fn') = Some (File c)"
    by blast+
  have first: "fmlookup (files w') (dst @ fn) = Some (File c)"
    using mono2 [of "dst @ fn" "File c"] c(3) by simp
  have others: "\<exists>c'. fmlookup (files w) (src @ fn') = Some (File c')
           \<and> fmlookup (files w') (dst @ fn') = Some (File c')" if "fn' \<in> set fns" for fn'
  proof -
    from ih that obtain c' where c': "fmlookup (files w1) (src @ fn') = Some (File c')"
      "fmlookup (files w') (dst @ fn') = Some (File c')" by blast
    from Cons.prems(2) that have "src @ fn' \<noteq> dst @ fn" by simp
    with c'(1) c(3) have "fmlookup (files w) (src @ fn') = Some (File c')" by simp
    with c'(2) show ?thesis by blast
  qed
  have mono: "\<forall>p x. fmlookup (files w) p = Some x \<longrightarrow> fmlookup (files w') p = Some x"
    using mono1 mono2 by blast
  have all: "\<forall>fn' \<in> set (fn # fns). \<exists>c. fmlookup (files w) (src @ fn') = Some (File c)
           \<and> fmlookup (files w') (dst @ fn') = Some (File c)"
    using first c(1) others by simp
  from mono all show ?case by blast
qed


lemma block_Upload_result:
  assumes "block_Upload X bdir w = (r, w')"
  shows "(let manifest = [block_MetaFilename X];
              staged = files_below (files w) bdir
          in (last bdir # manifest |\<notin>| fmdom (objects w)
                \<and> last bdir # manifest |\<in>| fmdom (objects w') \<longrightarrow>
              r = Inr () \<and> (\<forall>rel \<in> set staged. \<exists>c. fmlookup (files w) (bdir @ rel) = Some (File c)
                 \<and> fmlookup (objects w') (last bdir # rel) = Some c))
            \<and> (\<exists>cs. calls w' = calls w @ cs
                 \<and> (r = Inr () \<longrightarrow>
                      list_all2 (\<lambda>cl rel. \<exists>c. cl = CallUpload (last bdir # rel) c True) cs
                        (filter (\<lambda>rel. rel \<noteq> manifest) staged @ [manifest]))))"
proof (cases "bdir = []")
  case True
  with assms have "w' = w" "r = Inl ENOENT" by (simp_all add: block_Upload_def)
  then show ?thesis by (simp add: Let_def)
next
  case False
  let ?m = "[block_MetaFilename X]"
  let ?staged = "files_below (files w) bdir"
  let ?others = "filter (\<lambda>rel. rel \<noteq> ?m) ?staged"
  from assms False have run: "upload_files bdir (?others @ [?m]) w = (r, w')"
    by (simp add: block_Upload_def Let_def)
  have calls: "\<exists>cs. calls w' = calls w @ cs
                 \<and> (r = Inr () \<longrightarrow>
                      list_all2 (\<lambda>cl rel. \<exists>c. cl = CallUpload (last bdir # rel) c True) cs
                        (?others @ [?m]))"
    by (rule upload_files_calls [OF run])
  have state: "r = Inr () \<and> (\<forall>rel \<in> set ?staged. \<exists>c. fmlookup (files w) (bdir @ rel) = Some (File c)
                 \<and> fmlookup (objects w') (last bdir # rel) = Some c)"
    if absent: "last bdir # ?m |\<notin>| fmdom (objects w)"
      and present: "last bdir # ?m |\<in>| fmdom (objects w')"
  proof -
    obtain r1 w1 where first: "upload_files bdir ?others w = (r1, w1)"
      by (cases "upload_files bdir ?others w")
    note res1 = upload_files_result [OF first]
    have no1: "fmlookup (objects w1) (last bdir # ?m) = None"
    proof -
      from res1 have "fmlookup (objects w1) (last bdir # ?m) = fmlookup (objects w) (last bdir # ?m)
          \<or> (\<exists>rel \<in> set ?others. last bdir # ?m = last bdir # rel)" by blast
      moreover have "\<not> (\<exists>rel \<in> set ?others. last bdir # ?m = last bdir # rel)" by auto
      ultimately show ?thesis using absent by (auto simp: fmlookup_dom_iff)
    qed
    show ?thesis
    proof (cases r1)
      case (Inl e)
      with run first have "w' = w1" by (simp add: upload_files_append)
      with no1 present show ?thesis by (auto simp: fmlookup_dom_iff)
    next
      case (Inr u)
      with run first have last: "upload_files bdir [?m] w1 = (r, w')"
        by (simp add: upload_files_append)
      note res2 = upload_files_result [OF last]
      from res1 Inr have up1: "\<forall>rel \<in> set ?others. \<exists>c. fmlookup (files w) (bdir @ rel) = Some (File c)
            \<and> fmlookup (objects w1) (last bdir # rel) = Some c"
        and f1: "files w1 = files w" by auto
      have others: "\<forall>rel \<in> set ?others. \<exists>c. fmlookup (files w) (bdir @ rel) = Some (File c)
            \<and> fmlookup (objects w') (last bdir # rel) = Some c"
      proof
        fix rel assume rel: "rel \<in> set ?others"
        with up1 obtain c where c: "fmlookup (files w) (bdir @ rel) = Some (File c)"
          "fmlookup (objects w1) (last bdir # rel) = Some c" by blast
        from rel have "last bdir # rel \<noteq> last bdir # ?m" by auto
        with res2 have "fmlookup (objects w') (last bdir # rel) = fmlookup (objects w1) (last bdir # rel)"
          by auto
        with c show "\<exists>c. fmlookup (files w) (bdir @ rel) = Some (File c)
            \<and> fmlookup (objects w') (last bdir # rel) = Some c" by simp
      qed
      have manifest: "r = Inr () \<and> (\<exists>c. fmlookup (files w) (bdir @ ?m) = Some (File c)
            \<and> fmlookup (objects w') (last bdir # ?m) = Some c)"
      proof -
        obtain r2 w2 where u: "upload_file bdir ?m w1 = (r2, w2)"
          by (cases "upload_file bdir ?m w1")
        with last have "w' = w2" "r = r2" by (cases r2; auto)+
        with upload_file_result [OF u] no1 present f1 show ?thesis
          by (auto simp: fmlookup_dom_iff)
      qed
      from others manifest show ?thesis by auto
    qed
  qed
  from calls state show ?thesis unfolding Let_def by blast
qed



lemma hardlinkBlock_ok:
  assumes "hardlinkBlock X (r0 @ [i]) (r0 @ [''thanos'', ''upload'', i]) w = (Inr (), w')"
    and "i \<noteq> ''thanos''"
  shows "(\<forall>fn \<in> set (children (files w) (r0 @ [i, block_ChunksDirname X])).
            \<exists>c. fmlookup (files w) (r0 @ [i, block_ChunksDirname X, fn]) = Some (File c)
              \<and> fmlookup (files w') (r0 @ [''thanos'', ''upload'', i, block_ChunksDirname X, fn])
                  = Some (File c))
    \<and> (\<exists>c. fmlookup (files w) (r0 @ [i, block_IndexFilename X]) = Some (File c)
          \<and> fmlookup (files w') (r0 @ [''thanos'', ''upload'', i, block_IndexFilename X])
              = Some (File c))"
proof -
  let ?ch = "block_ChunksDirname X" and ?ix = "block_IndexFilename X" and ?mf = "block_MetaFilename X"
  let ?d = "r0 @ [i]" and ?up = "r0 @ [''thanos'', ''upload'', i]"
  from assms(1) obtain w1 w2 names where
    mk: "wrap ''create chunks dir'' (os_MkdirAll (?up @ [?ch])) w = (Inr (), w1)" and
    rd: "wrap ''read chunk dir'' (fileutil_ReadDir (?d @ [?ch])) w1 = (Inr names, w2)" and
    ln: "link_files ?d ?up (map (\<lambda>fn. [?ch, fn]) names @ [[?mf], [?ix]]) w2 = (Inr (), w')"
    unfolding hardlinkBlock_def Let_def
    by (elim io_bind_cases) auto
  from mk obtain r1 where mk': "os_MkdirAll (?up @ [?ch]) w = (r1, w1)" by (rule wrap_cases)
  from rd have rd': "fileutil_ReadDir (?d @ [?ch]) w1 = (Inr names, w2)"
    by (cases "fileutil_ReadDir (?d @ [?ch]) w1") (auto simp: wrap_def split: sum.splits)
  have keep: "fmlookup (files w1) (?d @ z) = fmlookup (files w) (?d @ z)" if "z \<noteq> []" for z
    using mk'
    by (rule os_MkdirAll_lookup)
      (use assms(2) that in \<open>auto simp: prefix_def Cons_eq_append_conv append_eq_Cons_conv\<close>)
  from fileutil_ReadDir_ok [OF rd'] have
    names: "names = children (files w1) (?d @ [?ch])" and f2: "files w2 = files w1" by auto
  have "children (files w1) (?d @ [?ch]) = children (files w) (?d @ [?ch])"
    by (rule children_agree) (use keep [of "[?ch, n]" for n] in simp)
  with names have names': "names = children (files w) (r0 @ [i, ?ch])" by simp
  have sep: "\<forall>fn \<in> set (map (\<lambda>fn. [?ch, fn]) names @ [[?mf], [?ix]]).
               \<forall>fn' \<in> set (map (\<lambda>fn. [?ch, fn]) names @ [[?mf], [?ix]]). ?d @ fn' \<noteq> ?up @ fn"
    using assms(2) by auto
  from link_files_ok [OF ln sep] have
    links: "\<forall>fn \<in> set (map (\<lambda>fn. [?ch, fn]) names @ [[?mf], [?ix]]).
              \<exists>c. fmlookup (files w2) (?d @ fn) = Some (File c)
                \<and> fmlookup (files w') (?up @ fn) = Some (File c)"
    by blast
  have chunks: "\<exists>c. fmlookup (files w) (r0 @ [i, ?ch, fn]) = Some (File c)
              \<and> fmlookup (files w') (r0 @ [''thanos'', ''upload'', i, ?ch, fn]) = Some (File c)"
    if "fn \<in> set (children (files w) (r0 @ [i, ?ch]))" for fn
  proof -
    from that names' have "[?ch, fn] \<in> set (map (\<lambda>fn. [?ch, fn]) names @ [[?mf], [?ix]])"
      by simp
    with links obtain c where "fmlookup (files w2) (?d @ [?ch, fn]) = Some (File c)"
      "fmlookup (files w') (?up @ [?ch, fn]) = Some (File c)" by blast
    with f2 keep [of "[?ch, fn]"] show ?thesis by simp
  qed
  have index: "\<exists>c. fmlookup (files w) (r0 @ [i, ?ix]) = Some (File c)
          \<and> fmlookup (files w') (r0 @ [''thanos'', ''upload'', i, ?ix]) = Some (File c)"
  proof -
    from links obtain c where "fmlookup (files w2) (?d @ [?ix]) = Some (File c)"
      "fmlookup (files w') (?up @ [?ix]) = Some (File c)" by auto
    with f2 keep [of "[?ix]"] show ?thesis by simp
  qed
  from chunks index show ?thesis by blast
qed


lemma list_all2_in_set1:
  "list_all2 P xs ys \<Longrightarrow> x \<in> set xs \<Longrightarrow> \<exists>y \<in> set ys. P x y"
  by (induction rule: list_all2_induct) auto

lemma bucket_Exists_result:
  assumes "bucket_Exists name w = (r, w')"
  shows "files w' = files w \<and> objects w' = objects w \<and> calls w' = calls w @ [CallExists name]"
  using assms
  by (cases "fault w") (auto simp: bucket_Exists_def dest!: fault_props split: bool.splits)

text \<open>
  When \<open>sync_staged\<close> changes the bucket, it has linked the files and written the meta file,
  and it ends with the upload of the staging directory.
\<close>

lemma sync_staged_upload:
  assumes run: "sync_staged X s meta (dir s @ [i]) (dir s @ [''thanos'', ''upload'', i]) w = (r, w')"
    and changed: "objects w' \<noteq> objects w"
    and i: "i \<noteq> ''thanos''"
    and mf: "block_MetaFilename X \<noteq> block_ChunksDirname X"
      "block_MetaFilename X \<noteq> block_IndexFilename X"
      "block_IndexFilename X \<noteq> block_MetaFilename X @ ''.tmp''"
  shows "\<exists>w2. block_Upload X (dir s @ [''thanos'', ''upload'', i]) w2 = (r, w')
    \<and> offline w w2
    \<and> (\<forall>fn \<in> set (children (files w) (dir s @ [i, block_ChunksDirname X])).
          \<exists>c. fmlookup (files w) (dir s @ [i, block_ChunksDirname X, fn]) = Some (File c)
            \<and> fmlookup (files w2) (dir s @ [''thanos'', ''upload'', i, block_ChunksDirname X, fn])
                = Some (File c))
    \<and> (\<exists>c. fmlookup (files w) (dir s @ [i, block_IndexFilename X]) = Some (File c)
          \<and> fmlookup (files w2) (dir s @ [''thanos'', ''upload'', i, block_IndexFilename X])
              = Some (File c))"
proof -
  let ?ch = "block_ChunksDirname X" and ?ix = "block_IndexFilename X" and ?mf = "block_MetaFilename X"
  let ?d = "dir s @ [i]" and ?up = "dir s @ [''thanos'', ''upload'', i]"
  let ?S = "{?up @ [?ch, fn] | fn. True} \<union> {?up @ [?ix]}"
  from run show ?thesis unfolding sync_staged_def Let_def
  proof (cases rule: io_bind_cases)
    case (stop e)
    from stop(1) obtain r0 where "hardlinkBlock X ?d ?up w = (r0, w')" by (rule wrap_cases)
    from hardlinkBlock_offline [OF this] changed show ?thesis by (simp add: offline_def)
  next
    case (go x w1)
    from go(1) have hl: "hardlinkBlock X ?d ?up w = (Inr (), w1)"
      by (cases "hardlinkBlock X ?d ?up w") (auto simp: wrap_def split: sum.splits)
    note o1 = hardlinkBlock_offline [OF hl]
    note staged = hardlinkBlock_ok [OF hl i]
    from go(2) show ?thesis
    proof (cases rule: io_bind_cases)
      case (stop e)
      from stop(1) obtain r0 meta2 where "block_WriteMetaFile X ?up meta2 w1 = (r0, w')"
        by (rule wrap_cases)
      from offline_trans [OF o1 block_WriteMetaFile_offline [OF this]] changed
      show ?thesis by (simp add: offline_def)
    next
      case (go y w2)
      from go(1) obtain r0 meta2 where wm: "block_WriteMetaFile X ?up meta2 w1 = (r0, w2)"
        by (rule wrap_cases)
      note o2 = offline_trans [OF o1 block_WriteMetaFile_offline [OF wm]]
      have "steady ?S w1 w2"
        using wm
        by (rule block_WriteMetaFile_steady) (use mf in \<open>auto simp: prefix_def\<close>)
      then have keep: "\<And>p. p \<in> ?S \<Longrightarrow> fmlookup (files w2) p = fmlookup (files w1) p"
        unfolding steady_def by blast
      have "\<forall>fn \<in> set (children (files w) (dir s @ [i, ?ch])).
          \<exists>c. fmlookup (files w) (dir s @ [i, ?ch, fn]) = Some (File c)
            \<and> fmlookup (files w2) (dir s @ [''thanos'', ''upload'', i, ?ch, fn]) = Some (File c)"
        using staged keep [of "?up @ [?ch, fn]" for fn] by auto
      moreover have "\<exists>c. fmlookup (files w) (dir s @ [i, ?ix]) = Some (File c)
          \<and> fmlookup (files w2) (dir s @ [''thanos'', ''upload'', i, ?ix]) = Some (File c)"
        using staged keep [of "?up @ [?ix]"] by auto
      ultimately show ?thesis using go(2) o2 by blast
    qed
  qed
qed

subsection \<open>The upload procedure of one block\<close>

text \<open>
  Claim C2. A block whose compaction level exceeds 1 is not shipped: \<open>sync\<close> returns nil at
  once and leaves the world as it is. No call reaches the bucket (\<open>calls\<close> and \<open>faults\<close> are
  unchanged, so not even the existence check is made), no staging directory appears in
  \<open>files\<close>, and \<open>objects\<close> is unchanged; neither the bookkeeping record nor the state of the
  bucket is looked at.
\<close>

theorem sync_skips_compacted_block:
  "1 < Compaction_Level meta \<Longrightarrow> sync X s meta w = (Inr (), w)"
  by (simp add: sync_def)

theorem sync_skips_compacted_block_witness:
  "1 < Compaction_Level B2 \<and> sync ex_deps ex_shipper B2 ex_world = (Inr (), ex_world)"
  using sync_skips_compacted_block [of B2 ex_deps ex_shipper ex_world]
  by (simp add: B2_def)

text \<open>
  Claim C1. For a block of compaction level at most 1, when the bucket answers that the
  object \<^verbatim>\<open><blockID>/<manifestFilename>\<close> exists, \<open>sync\<close> returns nil and the world is the one
  the existence check left: the local files and the objects of the bucket are unchanged
  (no staging directory, no upload) and the only call on the bucket is the check. When the
  ID is not in the set of previously uploaded IDs, the closure of \<open>Sync\<close> runs exactly this
  and appends the ID.
\<close>

theorem sync_skips_block_present_in_bucket:
  assumes "Compaction_Level meta \<le> 1"
    and "bucket_Exists [ULID_String X (ULID meta), block_MetaFilename X] w = (Inr True, w1)"
  shows "sync X s meta w = (Inr (), w1)
    \<and> files w1 = files w
    \<and> objects w1 = objects w
    \<and> calls w1 = calls w @ [CallExists [ULID_String X (ULID meta), block_MetaFilename X]]
    \<and> (ULID meta \<notin> hasUploaded \<longrightarrow>
         Sync_visit X s hasUploaded meta acc w
           = (Inr (acc\<lparr>Uploaded := Uploaded acc @ [ULID meta]\<rparr>), w1))"
  using assms
  by (auto simp: sync_def Sync_visit_def bucket_Exists_def fault_def
      split: list.splits bool.splits if_splits)

theorem sync_skips_block_present_in_bucket_witness:
  "Compaction_Level B1 \<le> 1
   \<and> bucket_Exists [''B1'', ''meta.json''] ex_world_shipped
       = (Inr True, ex_world_shipped\<lparr>calls := [CallExists [''B1'', ''meta.json'']]\<rparr>)
   \<and> sync ex_deps ex_shipper B1 ex_world_shipped
       = (Inr (), ex_world_shipped\<lparr>calls := [CallExists [''B1'', ''meta.json'']]\<rparr>)"
proof -
  have l: "Compaction_Level B1 \<le> 1"
    by (simp add: B1_def)
  have e: "bucket_Exists [ULID_String ex_deps (ULID B1), block_MetaFilename ex_deps]
             ex_world_shipped
           = (Inr True, ex_world_shipped\<lparr>calls := [CallExists [''B1'', ''meta.json'']]\<rparr>)"
    by code_simp
  have n: "[ULID_String ex_deps (ULID B1), block_MetaFilename ex_deps] = [''B1'', ''meta.json'']"
    by (simp add: ex_deps_def B1_def)
  show ?thesis
    using l e
      sync_skips_block_present_in_bucket
        [OF l e, of ex_shipper "{}" "\<lparr>Version = 1, Uploaded = []\<rparr>"]
    unfolding n by simp
qed

subsection \<open>One pass\<close>




text \<open>
  Claim C4. When \<open>sync\<close> fails on a block that is not in the set of uploaded IDs, the
  closure logs \<^verbatim>\<open>shipping failed\<close> with the block ID and the error, leaves the uploaded list
  as it was and returns nil; the loop then goes on with the remaining names from there.
  The loop over the names never returns an error, whatever \<open>sync\<close> does, and the only error
  \<^verbatim>\<open>iterBlockMetas\<close> can return to \<open>Sync\<close> is that of reading the directory.
\<close>

theorem Sync_isolates_block_failure:
  "(ULID m \<notin> hasUploaded \<and> sync X s m w = (Inl e, w') \<longrightarrow>
      Sync_visit X s hasUploaded m meta w
        = (Inr meta, log (Log Error ''shipping failed'' (Some (ULID m)) (Some e)) w'))
   \<and> (scan_entry X s n w0 = (Some m, w) \<and> ULID m \<notin> hasUploaded
        \<and> sync X s m w = (Inl e, w') \<longrightarrow>
      iterNames X s (Sync_visit X s hasUploaded) (n # ns) meta w0
        = iterNames X s (Sync_visit X s hasUploaded) ns meta
            (log (Log Error ''shipping failed'' (Some (ULID m)) (Some e)) w'))
   \<and> (\<exists>meta' w''. iterNames X s (Sync_visit X s hasUploaded) ns meta w0 = (Inr meta', w''))
   \<and> (iterBlockMetas X s (Sync_visit X s hasUploaded) meta w0 = (Inl e', w'') \<longrightarrow>
        (\<exists>e0. fileutil_ReadDir (dir s) w0 = (Inl e0, w'') \<and> e' = Wrap ''read dir'' e0))"
proof -
  have "\<exists>e0. fileutil_ReadDir (dir s) w0 = (Inl e0, w'') \<and> e' = Wrap ''read dir'' e0"
    if err: "iterBlockMetas X s (Sync_visit X s hasUploaded) meta w0 = (Inl e', w'')"
  proof (cases "fileutil_ReadDir (dir s) w0")
    case (Pair r w1)
    show ?thesis
    proof (cases r)
      case (Inl e0)
      with Pair err show ?thesis by (simp add: iterBlockMetas_cases)
    next
      case (Inr names)
      with Pair err iterNames_Sync_visit_total [of X s hasUploaded names meta w1]
      show ?thesis by (simp add: iterBlockMetas_cases)
    qed
  qed
  then show ?thesis
    using iterNames_Sync_visit_total [of X s hasUploaded ns meta w0]
    by (auto simp: Sync_visit_def)
qed

theorem Sync_isolates_block_failure_witness:
  "scan_entry ex_deps ex_shipper ''B1'' ex_world_faulty = (Some B1, ex_world\<lparr>faults := [True]\<rparr>)
   \<and> ULID B1 \<notin> {}
   \<and> sync ex_deps ex_shipper B1 (ex_world\<lparr>faults := [True]\<rparr>)
       = (Inl (Wrap ''check exists'' ErrBucket),
          ex_world\<lparr>calls := [CallExists [''B1'', ''meta.json'']]\<rparr>)
   \<and> iterNames ex_deps ex_shipper (Sync_visit ex_deps ex_shipper {}) [''B1'', ''B2'']
        \<lparr>Version = 1, Uploaded = []\<rparr> ex_world_faulty
       = iterNames ex_deps ex_shipper (Sync_visit ex_deps ex_shipper {}) [''B2'']
           \<lparr>Version = 1, Uploaded = []\<rparr>
           (log (Log Error ''shipping failed'' (Some (ULID B1))
                   (Some (Wrap ''check exists'' ErrBucket)))
              (ex_world\<lparr>calls := [CallExists [''B1'', ''meta.json'']]\<rparr>))"
proof -
  have a: "scan_entry ex_deps ex_shipper ''B1'' ex_world_faulty
           = (Some B1, ex_world\<lparr>faults := [True]\<rparr>)"
    by code_simp
  have b: "ULID B1 \<notin> {}"
    by simp
  have c: "sync ex_deps ex_shipper B1 (ex_world\<lparr>faults := [True]\<rparr>)
           = (Inl (Wrap ''check exists'' ErrBucket),
              ex_world\<lparr>calls := [CallExists [''B1'', ''meta.json'']]\<rparr>)"
    by code_simp
  show ?thesis
    using a b c
      Sync_isolates_block_failure
        [of B1 "{}" ex_deps ex_shipper "ex_world\<lparr>faults := [True]\<rparr>"
            "Wrap ''check exists'' ErrBucket"
            "ex_world\<lparr>calls := [CallExists [''B1'', ''meta.json'']]\<rparr>"
            "\<lparr>Version = 1, Uploaded = []\<rparr>" "''B1''" ex_world_faulty "[''B2'']"]
    by simp
qed

text \<open>
  Claim C5. When loading the bookkeeping record fails with any error \<open>e\<close>, \<open>Sync\<close> goes on:
  it is the scan with an empty set of uploaded IDs and the record of version 1 with an
  empty list, followed by the write of the record; a warning is logged first unless the
  error says that the file does not exist. A missing file, a file that is no JSON of a
  record and a record of another version each make the load fail.
\<close>

theorem Sync_survives_load_error:
  "(ReadMetaFile (dir s) w = (Inl e, w0) \<longrightarrow>
      Sync X s w =
        (case iterBlockMetas X s (Sync_visit X s {}) \<lparr>Version = 1, Uploaded = []\<rparr>
                (if os_IsNotExist e then w0
                 else log (Log Warn ''reading meta file failed, removing it'' None (Some e)) w0) of
           (Inl e2, w2) \<Rightarrow> log (Log Error ''iter block metas failed'' None (Some e2)) w2
         | (Inr meta', w2) \<Rightarrow>
             (case WriteMetaFile (dir s) meta' w2 of
                (Inl e3, w3) \<Rightarrow> log (Log Warn ''updating meta file failed'' None (Some e3)) w3
              | (Inr _, w3) \<Rightarrow> w3)))
   \<and> (fmlookup (files w) (dir s @ [MetaFilename]) = None \<longrightarrow>
        fst (ReadMetaFile (dir s) w)
          \<in> {Inl (missing (files w) (dir s @ [MetaFilename])), Inl EIO})
   \<and> (fmlookup (files w) (dir s @ [MetaFilename]) = Some (File c)
        \<and> json_Unmarshal_Meta c = None \<longrightarrow>
        fst (ReadMetaFile (dir s) w) \<in> {Inl ErrSyntax, Inl EIO})
   \<and> (fmlookup (files w) (dir s @ [MetaFilename]) = Some (File (MetaJSON m))
        \<and> Version m \<noteq> 1 \<longrightarrow>
        fst (ReadMetaFile (dir s) w) \<in> {Inl (ErrVersion (Version m)), Inl EIO})"
  by (simp add: Sync_def Sync_load_def ReadMetaFile_result json_Unmarshal_Meta_def)

theorem Sync_survives_load_error_witness:
  "fmlookup (files ex_world_stale) (dir ex_shipper @ [MetaFilename])
     = Some (File (MetaJSON \<lparr>Version = 2, Uploaded = [1]\<rparr>))
   \<and> Version \<lparr>Version = 2, Uploaded = [1]\<rparr> \<noteq> 1
   \<and> ReadMetaFile (dir ex_shipper) ex_world_stale = (Inl (ErrVersion 2), ex_world_stale)
   \<and> fmlookup (files (Sync ex_deps ex_shipper ex_world_stale)) [''data'', ''thanos.shipper.json'']
       = Some (File (MetaJSON \<lparr>Version = 1, Uploaded = [1, 2]\<rparr>))
   \<and> calls (Sync ex_deps ex_shipper ex_world_stale) = calls (Sync ex_deps ex_shipper ex_world)"
proof -
  have a: "fmlookup (files ex_world_stale) (dir ex_shipper @ [MetaFilename])
             = Some (File (MetaJSON \<lparr>Version = 2, Uploaded = [1]\<rparr>))"
    by code_simp
  have b: "ReadMetaFile (dir ex_shipper) ex_world_stale = (Inl (ErrVersion 2), ex_world_stale)"
    by code_simp
  have c: "fmlookup (files (Sync ex_deps ex_shipper ex_world_stale))
             [''data'', ''thanos.shipper.json'']
           = Some (File (MetaJSON \<lparr>Version = 1, Uploaded = [1, 2]\<rparr>))"
    by code_simp
  have d: "calls (Sync ex_deps ex_shipper ex_world_stale) = calls (Sync ex_deps ex_shipper ex_world)"
    by code_simp
  show ?thesis
    using a b c d
      Sync_survives_load_error
        [of ex_shipper ex_world_stale "ErrVersion 2" ex_world_stale ex_deps
            "MetaJSON \<lparr>Version = 2, Uploaded = [1]\<rparr>" "\<lparr>Version = 2, Uploaded = [1]\<rparr>"]
    by simp
qed

subsection \<open>Timestamps\<close>

text \<open>
  Claim C10. When reading the bookkeeping file fails, for whatever reason, \<open>Timestamps\<close>
  returns the wrapped error with both timestamps zero, in the world the failed read left:
  the directory is not scanned. In particular, when the file does not exist (as before the
  first pass that wrote it) the result is such an error and nothing but the fault list has
  changed. \<open>Timestamps\<close> has no fallback to an empty record.
\<close>

theorem Timestamps_fails_without_meta_file:
  "(ReadMetaFile (dir s) w = (Inl e, w1) \<longrightarrow>
      Timestamps X s w = ((0, 0, Some (Wrap ''read shipper meta file'' e)), w1))
   \<and> (fmlookup (files w) (dir s @ [MetaFilename]) = None \<longrightarrow>
        (\<exists>e' w'. Timestamps X s w = ((0, 0, Some (Wrap ''read shipper meta file'' e')), w')
           \<and> files w' = files w \<and> calls w' = calls w \<and> logged w' = logged w))"
  by (auto simp: Timestamps_def ReadMetaFile_def io_bind_def os_ReadFile_def syscall_def
      fault_def split: list.splits bool.splits)

theorem Timestamps_fails_without_meta_file_witness:
  "fmlookup (files ex_world) (dir ex_shipper @ [MetaFilename]) = None
   \<and> ReadMetaFile (dir ex_shipper) ex_world = (Inl ENOENT, ex_world)
   \<and> Timestamps ex_deps ex_shipper ex_world
       = ((0, 0, Some (Wrap ''read shipper meta file'' ENOENT)), ex_world)"
proof -
  have a: "fmlookup (files ex_world) (dir ex_shipper @ [MetaFilename]) = None"
    by code_simp
  have b: "ReadMetaFile (dir ex_shipper) ex_world = (Inl ENOENT, ex_world)"
    by code_simp
  show ?thesis
    using a b
      Timestamps_fails_without_meta_file [of ex_shipper ex_world ENOENT ex_world ex_deps]
    by simp
qed

text \<open>
  The values of \<open>Timestamps\<close>. When the bookkeeping record is read and the directory is scanned
  without error, \<^verbatim>\<open>minTime\<close> is the least \<^verbatim>\<open>MinTime\<close> of the blocks handed to the closure (blocks
  of any level, uploaded or not) if there is such a block and that least value is below
  \<^verbatim>\<open>math.MaxInt64\<close>, and 0 otherwise; \<^verbatim>\<open>maxSyncTime\<close> is the greatest \<^verbatim>\<open>MaxTime\<close> of the scanned
  blocks whose ID is in the record, and \<^verbatim>\<open>math.MinInt64\<close> if there is none. With no I/O fault
  the scanned blocks are the blocks that the root directory holds. After one pass over \<open>B1\<close>
  and \<open>B2\<close> the result is \<open>(50, 200)\<close> without error.
\<close>

lemma Timestamps_values:
  "(ReadMetaFile (dir s) w = (Inr meta, w1)
      \<and> Timestamps X s w = ((minTime, maxSyncTime, None), w2) \<longrightarrow>
    (let scanned = map fst (visits X s (Timestamps_visit (set (Uploaded meta)))
                              (MaxInt64, MinInt64) w1);
         recorded = filter (\<lambda>m. ULID m \<in> set (Uploaded meta)) scanned
     in sint minTime =
          (if scanned \<noteq> [] \<and> Min (sint ` MinTime ` set scanned) < sint MaxInt64
           then Min (sint ` MinTime ` set scanned) else 0)
        \<and> (recorded = [] \<longrightarrow> maxSyncTime = MinInt64)
        \<and> (recorded \<noteq> [] \<longrightarrow> sint maxSyncTime = Max (sint ` MaxTime ` set recorded))
        \<and> (faults w1 = [] \<longrightarrow> scanned = local_blocks X s (files w1))))
   \<and> fst (Timestamps ex_deps ex_shipper (Sync ex_deps ex_shipper ex_world)) = (50, 200, None)"
proof -
  have general: "(let scanned = map fst (visits X s (Timestamps_visit (set (Uploaded meta)))
                              (MaxInt64, MinInt64) w1);
         recorded = filter (\<lambda>m. ULID m \<in> set (Uploaded meta)) scanned
     in sint minTime =
          (if scanned \<noteq> [] \<and> Min (sint ` MinTime ` set scanned) < sint MaxInt64
           then Min (sint ` MinTime ` set scanned) else 0)
        \<and> (recorded = [] \<longrightarrow> maxSyncTime = MinInt64)
        \<and> (recorded \<noteq> [] \<longrightarrow> sint maxSyncTime = Max (sint ` MaxTime ` set recorded))
        \<and> (faults w1 = [] \<longrightarrow> scanned = local_blocks X s (files w1)))"
    if rd: "ReadMetaFile (dir s) w = (Inr meta, w1)"
      and ts: "Timestamps X s w = ((minTime, maxSyncTime, None), w2)"
  proof -
    let ?f = "Timestamps_visit (set (Uploaded meta))"
    from rd ts obtain mn mx where
      it: "iterBlockMetas X s ?f (MaxInt64, MinInt64) w1 = (Inr (mn, mx), w2)" and
      res: "minTime = (if mn = MaxInt64 then 0 else mn)" "maxSyncTime = mx"
      by (auto simp: Timestamps_def split: prod.splits sum.splits)
    from it obtain names w1' where
      ls: "fileutil_ReadDir (dir s) w1 = (Inr names, w1')" and
      itn: "iterNames X s ?f names (MaxInt64, MinInt64) w1' = (Inr (mn, mx), w2)"
      by (auto simp: iterBlockMetas_cases split: prod.splits sum.splits)
    from iterNames_recording_ok [OF itn] obtain vs where
      rec: "iterNames X s (recording ?f) names ([], (MaxInt64, MinInt64)) w1'
              = (Inr (vs, (mn, mx)), w2)"
      by force
    have vis: "visits X s ?f (MaxInt64, MinInt64) w1 = vs"
      using ls rec by (simp add: visits_def iterBlockMetas_cases)
    from Timestamps_iterNames_recorded [OF rec] have
      mn: "sint mn = Min (insert (sint MaxInt64) (sint ` MinTime ` fst ` set vs))" and
      mx: "sint mx = Max (insert (sint MinInt64)
                       (sint ` MaxTime ` {m \<in> fst ` set vs. ULID m \<in> set (Uploaded meta)}))"
      by auto
    let ?S = "sint ` MinTime ` fst ` set vs"
    let ?R = "sint ` MaxTime ` {m \<in> fst ` set vs. ULID m \<in> set (Uploaded meta)}"
    have lo: "sint minTime = (if vs \<noteq> [] \<and> Min ?S < sint MaxInt64 then Min ?S else 0)"
    proof (cases "vs = []")
      case True
      with mn have "sint mn = sint MaxInt64" by simp
      then have "mn = MaxInt64" by (simp only: sint_int64_eq)
      with True res show ?thesis by simp
    next
      case False
      then have ne: "?S \<noteq> {}" by simp
      from False obtain v where "v \<in> set vs" by (cases vs) auto
      then have "sint (MinTime (fst v)) \<in> ?S" by blast
      then have "Min ?S \<le> sint (MinTime (fst v))" by (intro Min_le) auto
      also have "\<dots> \<le> sint MaxInt64" by (simp add: sint_MaxInt64 sint_int64_le)
      finally have le: "Min ?S \<le> sint MaxInt64" .
      from mn ne have eq: "sint mn = min (sint MaxInt64) (Min ?S)" by simp
      with le have eq': "sint mn = Min ?S" by simp
      have "mn = MaxInt64 \<longleftrightarrow> sint mn = sint MaxInt64" by (simp only: sint_int64_eq)
      with eq' le False res show ?thesis by auto
    qed
    have hi0: "?R = {} \<longrightarrow> maxSyncTime = MinInt64"
    proof
      assume "?R = {}"
      with mx have "sint mx = sint MinInt64" by simp
      then show "maxSyncTime = MinInt64" using res by (simp only: sint_int64_eq)
    qed
    have hi1: "?R \<noteq> {} \<longrightarrow> sint maxSyncTime = Max ?R"
    proof
      assume ne: "?R \<noteq> {}"
      then obtain x where x: "x \<in> ?R" by blast
      then obtain m :: BlockMeta where m: "x = sint (MaxTime m)" by blast
      have "sint MinInt64 \<le> x" unfolding m by (simp add: sint_MinInt64 sint_int64_ge)
      also from x have "\<dots> \<le> Max ?R" by (intro Max_ge) auto
      finally have "sint MinInt64 \<le> Max ?R" .
      with mx ne show "sint maxSyncTime = Max ?R" using res by simp
    qed
    have found: "map fst vs = local_blocks X s (files w1)" if nf: "faults w1 = []"
    proof -
      from ReadDir_ok_none [OF nf ls] have
        root: "fmlookup (files w1) (dir s) = Some Dir" and
        names: "names = children (files w1) (dir s)" and w1': "w1' = w1"
        by auto
      have pure: "steady (scan_paths X s) wx wy" if "?f m a wx = (rx, wy)" for m a wx rx wy
        using that by (cases a) (simp add: Timestamps_visit_apply)
      from iterNames_blocks [of ?f s X names "[]" "(MaxInt64, MinInt64)" w1 vs "(mn, mx)" w2,
          OF pure rec [unfolded w1'] nf root]
      show ?thesis by (auto simp: local_blocks_def names)
    qed
    have setR: "set (filter (\<lambda>m. ULID m \<in> set (Uploaded meta)) (map fst vs))
                 = {m \<in> fst ` set vs. ULID m \<in> set (Uploaded meta)}"
      by auto
    show ?thesis
      unfolding vis Let_def using lo hi0 hi1 found
      by (simp only: setR set_map filter_empty_conv) (auto simp: image_image)
  qed
  have scenario:
    "fst (Timestamps ex_deps ex_shipper (Sync ex_deps ex_shipper ex_world)) = (50, 200, None)"
    by code_simp
  from general scenario show ?thesis by blast
qed

lemma Timestamps_values_at_synced:
  "ReadMetaFile (dir ex_shipper) ex_world_synced
     = (Inr \<lparr>Version = 1, Uploaded = [1, 2]\<rparr>, ex_world_synced)
   \<and> Timestamps ex_deps ex_shipper ex_world_synced = ((50, 200, None), ex_world_synced)
   \<and> map fst (visits ex_deps ex_shipper (Timestamps_visit {1, 2}) (MaxInt64, MinInt64)
                 ex_world_synced) = [B1, B2]
   \<and> sint (50 :: int64) = Min (sint ` MinTime ` {B1, B2})
   \<and> sint (200 :: int64) = Max (sint ` MaxTime ` {B1, B2})"
proof -
  have a: "ReadMetaFile (dir ex_shipper) ex_world_synced
             = (Inr \<lparr>Version = 1, Uploaded = [1, 2]\<rparr>, ex_world_synced)"
    by code_simp
  have b: "Timestamps ex_deps ex_shipper ex_world_synced = ((50, 200, None), ex_world_synced)"
    by code_simp
  have c: "map fst (visits ex_deps ex_shipper
                      (Timestamps_visit (set (Uploaded \<lparr>Version = 1, Uploaded = [1, 2]\<rparr>)))
                      (MaxInt64, MinInt64) ex_world_synced) = [B1, B2]"
    by code_simp
  have d: "ULID B1 = 1" "ULID B2 = 2" "sint (MinTime B1) = 100" "sint (MinTime B2) = 50"
    by (simp_all add: B1_def B2_def)
  from a b Timestamps_values
      [of ex_shipper ex_world_synced "\<lparr>Version = 1, Uploaded = [1, 2]\<rparr>" ex_world_synced
          ex_deps 50 200 ex_world_synced]
  show ?thesis
    unfolding Let_def c using a b c d by (simp add: sint_MaxInt64)
qed

text \<open>
  Claim C6: \<^verbatim>\<open>minTime\<close> is the least \<^verbatim>\<open>MinTime\<close> of the scanned blocks, and 0 if no block exists.
  The code misses one case. It starts the search at \<^verbatim>\<open>math.MaxInt64\<close> and, after the scan,
  takes that value to mean that no block was found (lines 129 to 132, under the comment
  \<^verbatim>\<open>No block yet found\<close>). A block that starts at \<^verbatim>\<open>math.MaxInt64\<close> leaves the same value: in a
  root that holds the block \<open>B3\<close> alone, the block is scanned, its \<^verbatim>\<open>MinTime\<close> is the least one,
  and \<open>Timestamps\<close> returns 0 as \<^verbatim>\<open>minTime\<close>, without error.
\<close>

theorem Timestamps_minTime_sentinel_collision:
  "local_blocks ex_deps ex_shipper (files ex_world_late) = [B3]
   \<and> map fst (visits ex_deps ex_shipper (Timestamps_visit {}) (MaxInt64, MinInt64) ex_world_late)
       = [B3]
   \<and> sint (MinTime B3) = 9223372036854775807
   \<and> fst (Timestamps ex_deps ex_shipper ex_world_late) = (0, MinInt64, None)"
  by code_simp

subsection \<open>Writing the bookkeeping file\<close>

text \<open>
  What \<open>WriteMetaFile\<close> leaves at the target path, whatever calls fail: what was there before,
  or nothing while \<^verbatim>\<open><target>.tmp\<close> holds the complete new record, or the complete new record;
  never a part of it. When it returns nil, the target holds the complete new record and the
  temporary file is gone.
\<close>

lemma WriteMetaFile_target_never_partial:
  assumes "WriteMetaFile d meta w = (r, w')"
  shows "(fmlookup (files w') (d @ [MetaFilename]) = fmlookup (files w) (d @ [MetaFilename])
          \<or> (fmlookup (files w') (d @ [MetaFilename]) = None
               \<and> fmlookup (files w') (d @ [MetaFilename @ ''.tmp'']) = Some (File (MetaJSON meta)))
          \<or> fmlookup (files w') (d @ [MetaFilename]) = Some (File (MetaJSON meta)))
    \<and> (r = Inr () \<longrightarrow>
          fmlookup (files w') (d @ [MetaFilename]) = Some (File (MetaJSON meta))
          \<and> fmlookup (files w') (d @ [MetaFilename @ ''.tmp'']) = None)"
  using WriteMetaFile_files [OF assms] by auto

lemma WriteMetaFile_target_at_synced:
  "WriteMetaFile [''data''] \<lparr>Version = 1, Uploaded = [1]\<rparr> ex_world_synced
     = (Inr (), snd (WriteMetaFile [''data''] \<lparr>Version = 1, Uploaded = [1]\<rparr> ex_world_synced))
   \<and> fmlookup
        (files (snd (WriteMetaFile [''data''] \<lparr>Version = 1, Uploaded = [1]\<rparr> ex_world_synced)))
        ([''data''] @ [MetaFilename])
     = Some (File (MetaJSON \<lparr>Version = 1, Uploaded = [1]\<rparr>))"
proof -
  have a: "WriteMetaFile [''data''] \<lparr>Version = 1, Uploaded = [1]\<rparr> ex_world_synced
     = (Inr (), snd (WriteMetaFile [''data''] \<lparr>Version = 1, Uploaded = [1]\<rparr> ex_world_synced))"
    by code_simp
  from a WriteMetaFile_target_never_partial [OF a] show ?thesis
    by simp
qed

text \<open>
  Claim C8: at every point of the write, the old file or the new file is intact at the
  target path. The code breaks this between two of its steps: \<^verbatim>\<open>renameFile\<close> removes what is at
  the target (line 344) before it renames the temporary file onto it (line 347), against
  the comment of line 303, \<^verbatim>\<open>Make any changes to the file appear atomic\<close>. When the rename
  fails, or the process stops between the two calls, the record that was at the target is
  gone and the new one is not there. Here the target holds the record of \<open>B1\<close> and \<open>B2\<close>, the
  record of \<open>B1\<close> is written, and the rename, the fifth call of the write, fails:
  \<open>WriteMetaFile\<close> returns the error, the target path holds nothing, and the new record is
  in \<^verbatim>\<open>thanos.shipper.json.tmp\<close>.
\<close>

theorem WriteMetaFile_rename_fault_loses_record:
  "fmlookup (files ex_world_synced) [''data'', ''thanos.shipper.json'']
     = Some (File (MetaJSON \<lparr>Version = 1, Uploaded = [1, 2]\<rparr>))
   \<and> fst (WriteMetaFile [''data''] \<lparr>Version = 1, Uploaded = [1]\<rparr>
            (ex_world_synced\<lparr>faults := [False, False, False, False, True]\<rparr>))
     = Inl EIO
   \<and> fmlookup
        (files (snd (WriteMetaFile [''data''] \<lparr>Version = 1, Uploaded = [1]\<rparr>
                       (ex_world_synced\<lparr>faults := [False, False, False, False, True]\<rparr>))))
        [''data'', ''thanos.shipper.json'']
     = None
   \<and> fmlookup
        (files (snd (WriteMetaFile [''data''] \<lparr>Version = 1, Uploaded = [1]\<rparr>
                       (ex_world_synced\<lparr>faults := [False, False, False, False, True]\<rparr>))))
        [''data'', ''thanos.shipper.json.tmp'']
     = Some (File (MetaJSON \<lparr>Version = 1, Uploaded = [1]\<rparr>))"
  by code_simp

subsection \<open>Two passes in a row\<close>

text \<open>
  Claim C7, as amended. Take a first pass with no I/O fault that persisted its record
  \<open>new\<close> and recorded every block it scanned (no upload procedure failed), where the names
  \<^verbatim>\<open>thanos\<close>, \<^verbatim>\<open>thanos.shipper.json\<close> and \<^verbatim>\<open>thanos.shipper.json.tmp\<close> are no block IDs. A second
  pass, started in the world the first one left, makes no call on the bucket (no
  existence check, no upload: \<open>calls\<close> and \<open>objects\<close> are unchanged) and leaves in the
  bookkeeping file the record that the first pass wrote.
\<close>

theorem Sync_twice_without_failure:
  assumes nf: "faults w = []"
    and th: "IsBlockDir X ''thanos'' = None"
    and mf: "IsBlockDir X MetaFilename = None"
    and tf: "IsBlockDir X (MetaFilename @ ''.tmp'') = None"
    and ld: "Sync_load s w = (old, wa)"
    and sc: "iterBlockMetas X s (Sync_visit X s (set (Uploaded old))) (old\<lparr>Uploaded := []\<rparr>) wa
                 = (Inr new, wb)"
    and al: "Uploaded new =
                map (\<lambda>(m, wb, wa). ULID m)
                  (visits X s (Sync_visit X s (set (Uploaded old))) (old\<lparr>Uploaded := []\<rparr>) wa)"
    and wr: "WriteMetaFile (dir s) new wb = (Inr (), w1)"
  shows "Sync X s w = w1
    \<and> calls (Sync X s w1) = calls w1
    \<and> objects (Sync X s w1) = objects w1
    \<and> fmlookup (files w1) (dir s @ [MetaFilename]) = Some (File (MetaJSON new))
    \<and> fmlookup (files (Sync X s w1)) (dir s @ [MetaFilename]) = Some (File (MetaJSON new))"
proof -
  let ?S = "scan_paths X s"
  let ?f = "Sync_visit X s (set (Uploaded old))" and ?a = "old\<lparr>Uploaded := []\<rparr>"
  have run1: "Sync X s w = w1"
    using ld sc wr by (simp add: Sync_def)
  \<comment> \<open>the first pass\<close>
  from Sync_load_none [OF nf ld] have wa: "faults wa = []" by simp
  from sc obtain names wa' where
    rd: "fileutil_ReadDir (dir s) wa = (Inr names, wa')" and
    it: "iterNames X s ?f names ?a wa' = (Inr new, wb)"
    by (auto simp: iterBlockMetas_cases split: prod.splits sum.splits)
  from ReadDir_ok_none [OF wa rd] have
    root: "fmlookup (files wa) (dir s) = Some Dir" and
    names: "names = children (files wa) (dir s)" and wa': "wa' = wa"
    by auto
  from iterNames_recording_ok [OF it] obtain vs where
    rec: "iterNames X s (recording ?f) names ([], ?a) wa = (Inr (vs, new), wb)"
    unfolding wa' by force
  have vis: "visits X s ?f ?a wa = vs"
    using rd rec wa' by (simp add: visits_def iterBlockMetas_cases)
  from iterNames_blocks [of ?f s X names "[]" ?a wa vs new wb, OF Sync_visit_steady [OF _ th] rec wa root]
  have blocks1: "map fst vs = local_blocks X s (files wa)" and st1: "steady ?S wa wb"
    by (auto simp: local_blocks_def names)
  from Sync_iterNames_recorded [OF rec] have "Version new = Version ?a" by auto
  with Sync_load_Version [OF ld] have v1: "Version new = 1" by simp
  have up: "Uploaded new = map ULID (local_blocks X s (files wa))"
    unfolding al vis blocks1 [symmetric] by (simp add: case_prod_unfold)
  \<comment> \<open>its write\<close>
  have "steady ?S wb w1"
    using wr
    by (rule WriteMetaFile_steady)
      (use mf tf in \<open>auto simp: scan_paths_def prefix_def Cons_eq_append_conv\<close>)
  with st1 have st: "steady ?S wa w1" by (rule steady_trans)
  with wa have nf1: "faults w1 = []" by (simp add: steady_def)
  from steady_root [OF st root] have root1: "fmlookup (files w1) (dir s) = Some Dir" .
  from WriteMetaFile_files [OF wr] have
    stored: "fmlookup (files w1) (dir s @ [MetaFilename]) = Some (File (MetaJSON new))" and
    tmp: "fmlookup (files w1) (dir s @ [MetaFilename @ ''.tmp'']) = None"
    by auto
  have blocks: "local_blocks X s (files w1) = local_blocks X s (files wa)"
    by (rule local_blocks_agree) (use st in \<open>simp add: steady_def\<close>)
  \<comment> \<open>the second pass\<close>
  have load2: "Sync_load s w1 = (new, w1)"
    using ReadMetaFile_no_faults [OF nf1 stored v1] by (simp add: Sync_load_def)
  have "\<forall>m \<in> set (List.map_filter (block_at X s (files w1)) (children (files w1) (dir s))).
          ULID m \<in> set (Uploaded new)"
    using blocks up by (simp add: local_blocks_def)
  from iterNames_all_uploaded [OF nf1 this, of "new\<lparr>Uploaded := []\<rparr>"] obtain w2 where
    it2: "iterNames X s (Sync_visit X s (set (Uploaded new))) (children (files w1) (dir s))
            (new\<lparr>Uploaded := []\<rparr>) w1
          = (Inr (new\<lparr>Uploaded := map ULID (local_blocks X s (files w1))\<rparr>), w2)" and
    w2: "files w2 = files w1" "faults w2 = []" "calls w2 = calls w1" "objects w2 = objects w1"
    by (auto simp: local_blocks_def)
  have same: "new\<lparr>Uploaded := map ULID (local_blocks X s (files w1))\<rparr> = new"
    using blocks up by simp
  have scan2: "iterBlockMetas X s (Sync_visit X s (set (Uploaded new))) (new\<lparr>Uploaded := []\<rparr>) w1
                 = (Inr new, w2)"
    using it2 same by (simp add: iterBlockMetas_cases fileutil_ReadDir_none [OF nf1 root1])
  from WriteMetaFile_none [of w2 "dir s" new] w2 root1 tmp obtain w3 where
    write2: "WriteMetaFile (dir s) new w2 = (Inr (), w3)" and
    w3: "calls w3 = calls w2" "objects w3 = objects w2"
    by auto
  have run2: "Sync X s w1 = w3"
    using load2 scan2 write2 by (simp add: Sync_def)
  from WriteMetaFile_ok [OF write2] run1 run2 w2 w3 stored show ?thesis by simp
qed

theorem Sync_twice_without_failure_witness:
  "faults ex_world = []
   \<and> IsBlockDir ex_deps ''thanos'' = None
   \<and> IsBlockDir ex_deps MetaFilename = None
   \<and> IsBlockDir ex_deps (MetaFilename @ ''.tmp'') = None
   \<and> Sync_load ex_shipper ex_world = (\<lparr>Version = 1, Uploaded = []\<rparr>, ex_world)
   \<and> iterBlockMetas ex_deps ex_shipper (Sync_visit ex_deps ex_shipper {})
        \<lparr>Version = 1, Uploaded = []\<rparr> ex_world
       = (Inr \<lparr>Version = 1, Uploaded = [1, 2]\<rparr>, ex_world_scanned)
   \<and> map (\<lambda>(m, wb, wa). ULID m)
        (visits ex_deps ex_shipper (Sync_visit ex_deps ex_shipper {})
           \<lparr>Version = 1, Uploaded = []\<rparr> ex_world) = [1, 2]
   \<and> WriteMetaFile (dir ex_shipper) \<lparr>Version = 1, Uploaded = [1, 2]\<rparr> ex_world_scanned
       = (Inr (), ex_world_synced)
   \<and> calls (Sync ex_deps ex_shipper ex_world_synced) = calls ex_world_synced
   \<and> objects (Sync ex_deps ex_shipper ex_world_synced) = objects ex_world_synced
   \<and> fmlookup (files (Sync ex_deps ex_shipper ex_world_synced)) (dir ex_shipper @ [MetaFilename])
       = Some (File (MetaJSON \<lparr>Version = 1, Uploaded = [1, 2]\<rparr>))"
proof -
  have a: "faults ex_world = []"
    by (simp add: ex_world_def)
  have b: "IsBlockDir ex_deps ''thanos'' = None" "IsBlockDir ex_deps MetaFilename = None"
    "IsBlockDir ex_deps (MetaFilename @ ''.tmp'') = None"
    by (simp_all add: ex_deps_def MetaFilename_def)
  have c: "Sync_load ex_shipper ex_world = (\<lparr>Version = 1, Uploaded = []\<rparr>, ex_world)"
    by code_simp
  have d: "iterBlockMetas ex_deps ex_shipper
             (Sync_visit ex_deps ex_shipper (set (Uploaded \<lparr>Version = 1, Uploaded = []\<rparr>)))
             (\<lparr>Version = 1, Uploaded = []\<rparr>\<lparr>Uploaded := []\<rparr>) ex_world
           = (Inr \<lparr>Version = 1, Uploaded = [1, 2]\<rparr>, ex_world_scanned)"
    by code_simp
  have e: "Uploaded \<lparr>Version = 1, Uploaded = [1, 2]\<rparr>
           = map (\<lambda>(m, wb, wa). ULID m)
               (visits ex_deps ex_shipper
                  (Sync_visit ex_deps ex_shipper (set (Uploaded \<lparr>Version = 1, Uploaded = []\<rparr>)))
                  (\<lparr>Version = 1, Uploaded = []\<rparr>\<lparr>Uploaded := []\<rparr>) ex_world)"
    by code_simp
  have f: "WriteMetaFile (dir ex_shipper) \<lparr>Version = 1, Uploaded = [1, 2]\<rparr> ex_world_scanned
           = (Inr (), ex_world_synced)"
    by code_simp
  from Sync_twice_without_failure [OF a b c d e f] a b c d e f show ?thesis
    by simp
qed

text \<open>
  The claim C7 as it was stated, for any two passes in a row, fails when the upload
  procedure of a block failed in the first pass: the bucket did not answer the existence
  check for \<open>B1\<close>, the first pass recorded \<open>B2\<close> only, and the second pass uploads \<open>B1\<close> and
  writes another record.
\<close>

theorem Sync_twice_retries_failed_block_counterexample:
  "fmlookup (files (Sync ex_deps ex_shipper ex_world_flaky)) [''data'', ''thanos.shipper.json'']
     = Some (File (MetaJSON \<lparr>Version = 1, Uploaded = [2]\<rparr>))
   \<and> calls (Sync ex_deps ex_shipper ex_world_flaky) = [CallExists [''B1'', ''meta.json'']]
   \<and> fmlookup (files (Sync ex_deps ex_shipper (Sync ex_deps ex_shipper ex_world_flaky)))
        [''data'', ''thanos.shipper.json'']
     = Some (File (MetaJSON \<lparr>Version = 1, Uploaded = [1, 2]\<rparr>))
   \<and> length (calls (Sync ex_deps ex_shipper (Sync ex_deps ex_shipper ex_world_flaky))) = 5
   \<and> last (calls (Sync ex_deps ex_shipper (Sync ex_deps ex_shipper ex_world_flaky)))
     = CallUpload [''B1'', ''meta.json'']
         (BlockMetaJSON (B1\<lparr>Thanos_Labels := [(''replica'', ''a'')], Thanos_Source := ''sidecar''\<rparr>))
         True"
  by code_simp

subsection \<open>The order of the uploads\<close>

text \<open>
  Claim C9. Take a run of \<open>sync\<close> on a block, with any failures, before which the bucket did
  not hold the manifest of the block and after which it does. Then the bucket holds every
  chunk file of the block directory and its index file, with the content they had when
  \<open>sync\<close> started; \<open>sync\<close> has returned nil; and its calls on the bucket are the existence
  check, then successful uploads of objects other than the manifest, then the upload of
  the manifest as the last call. The bucket changes only by the uploads, a call that
  fails leaves it as it was, and the state a failure leaves is the state the run was in
  at that point: so at no point of the run is the manifest in the bucket while a data
  file or the index is missing. The three file names of a block are taken to be distinct
  (the index is not named like the temporary meta file either), and the text of the block
  ID is not \<^verbatim>\<open>thanos\<close>, the name of the staging area.
\<close>

theorem sync_uploads_manifest_last:
  assumes run: "sync X s meta w = (r, w')"
    and i: "ULID_String X (ULID meta) \<noteq> ''thanos''"
    and mf: "block_MetaFilename X \<noteq> block_ChunksDirname X"
      "block_MetaFilename X \<noteq> block_IndexFilename X"
      "block_IndexFilename X \<noteq> block_MetaFilename X @ ''.tmp''"
    and absent: "[ULID_String X (ULID meta), block_MetaFilename X] |\<notin>| fmdom (objects w)"
    and present: "[ULID_String X (ULID meta), block_MetaFilename X] |\<in>| fmdom (objects w')"
  shows "(\<forall>fn \<in> set (children (files w)
                      (dir s @ [ULID_String X (ULID meta), block_ChunksDirname X])).
           \<exists>c. fmlookup (files w)
                  (dir s @ [ULID_String X (ULID meta), block_ChunksDirname X, fn]) = Some (File c)
             \<and> fmlookup (objects w')
                  [ULID_String X (ULID meta), block_ChunksDirname X, fn] = Some c)
    \<and> (\<exists>c. fmlookup (files w) (dir s @ [ULID_String X (ULID meta), block_IndexFilename X])
               = Some (File c)
          \<and> fmlookup (objects w') [ULID_String X (ULID meta), block_IndexFilename X] = Some c)
    \<and> r = Inr ()
    \<and> (\<exists>cs c. calls w'
                 = calls w @ CallExists [ULID_String X (ULID meta), block_MetaFilename X] # cs
                     @ [CallUpload [ULID_String X (ULID meta), block_MetaFilename X] c True]
          \<and> (\<forall>cl \<in> set cs. \<exists>name c'. cl = CallUpload name c' True
                \<and> name \<noteq> [ULID_String X (ULID meta), block_MetaFilename X]))"
proof -
  let ?i = "ULID_String X (ULID meta)"
  let ?ch = "block_ChunksDirname X" and ?ix = "block_IndexFilename X" and ?mf = "block_MetaFilename X"
  let ?d = "dir s @ [?i]" and ?up = "dir s @ [''thanos'', ''upload'', ?i]"
  from absent present have changed: "objects w' \<noteq> objects w" by auto
  have lvl: "\<not> 1 < Compaction_Level meta"
    using run changed by (auto simp: sync_def)
  obtain r1 w1 where ex: "bucket_Exists [?i, ?mf] w = (r1, w1)"
    by (cases "bucket_Exists [?i, ?mf] w")
  note e1 = bucket_Exists_result [OF ex]
  from run lvl ex changed e1 obtain ok where r1: "r1 = Inr ok"
    by (cases r1) (auto simp: sync_def)
  from run lvl ex changed e1 r1 have nok: "\<not> ok"
    by (auto simp: sync_def)
  let ?w2 = "log (Log Info ''upload new block'' (Some (ULID meta)) None) w1"
  obtain r3 w3 where rm: "os_RemoveAll ?up ?w2 = (r3, w3)" by (cases "os_RemoveAll ?up ?w2")
  note o3 = os_RemoveAll_offline [OF rm]
  have obj2: "objects ?w2 = objects w" "calls ?w2 = calls w @ [CallExists [?i, ?mf]]"
    "files ?w2 = files w"
    using e1 by (simp_all add: log_def)
  from run lvl ex r1 nok rm changed o3 obj2 obtain u3 where r3: "r3 = Inr u3"
    by (cases r3) (auto simp: sync_def Let_def offline_def)
  obtain r4 w4 where mk: "os_MkdirAll ?up w3 = (r4, w4)" by (cases "os_MkdirAll ?up w3")
  note o4 = offline_trans [OF o3 os_MkdirAll_offline [OF mk]]
  from run lvl ex r1 nok rm r3 mk changed o4 obj2 obtain u4 where r4: "r4 = Inr u4"
    by (cases r4) (auto simp: sync_def Let_def offline_def)
  obtain r5 w5 where st: "sync_staged X s meta ?d ?up w4 = (r5, w5)"
    by (cases "sync_staged X s meta ?d ?up w4")
  obtain r6 w6 where cl: "os_RemoveAll ?up w5 = (r6, w6)" by (cases "os_RemoveAll ?up w5")
  note o6 = os_RemoveAll_offline [OF cl]
  from run lvl ex r1 nok rm r3 mk r4 st cl
  have res: "r = r5" "w' = w6 \<or> (\<exists>l. w' = log l w6)"
    by (cases r6; auto simp: sync_def Let_def)+
  with o6 have o': "objects w' = objects w5" "calls w' = calls w5"
    by (auto simp: offline_def log_def)
  from o4 obj2 have o4': "objects w4 = objects w" "calls w4 = calls w @ [CallExists [?i, ?mf]]"
    by (simp_all add: offline_def)
  \<comment> \<open>the block directory is as it was when the staging starts\<close>
  have keep: "fmlookup (files w4) (?d @ z) = fmlookup (files w) (?d @ z)" if "z \<noteq> []" for z
  proof -
    have a: "\<not> prefix ?up (?d @ z)" "\<not> prefix (?d @ z) ?up"
      using i that by (auto simp: prefix_def Cons_eq_append_conv append_eq_Cons_conv)
    from os_MkdirAll_lookup [OF mk a(2)] os_RemoveAll_lookup [OF rm a(1)] obj2(3)
    show ?thesis by simp
  qed
  have kids: "children (files w4) (dir s @ [?i, ?ch]) = children (files w) (dir s @ [?i, ?ch])"
    by (rule children_agree) (use keep [of "[?ch, n]" for n] in simp)
  \<comment> \<open>the upload\<close>
  from o' o4' changed have "objects w5 \<noteq> objects w4" by simp
  from sync_staged_upload [OF st this i mf] obtain w7 where
    up: "block_Upload X ?up w7 = (r5, w5)" and o7: "offline w4 w7" and
    chunks: "\<forall>fn \<in> set (children (files w4) (dir s @ [?i, ?ch])).
          \<exists>c. fmlookup (files w4) (dir s @ [?i, ?ch, fn]) = Some (File c)
            \<and> fmlookup (files w7) (dir s @ [''thanos'', ''upload'', ?i, ?ch, fn]) = Some (File c)" and
    index: "\<exists>c. fmlookup (files w4) (dir s @ [?i, ?ix]) = Some (File c)
          \<and> fmlookup (files w7) (dir s @ [''thanos'', ''upload'', ?i, ?ix]) = Some (File c)"
    by blast
  from o7 o4' have o7': "objects w7 = objects w" "calls w7 = calls w @ [CallExists [?i, ?mf]]"
    by (simp_all add: offline_def)
  have l: "last ?up = ?i" by simp
  from block_Upload_result [OF up] absent present o7'(1) o'(1) have
    ok5: "r5 = Inr ()" and
    all: "\<forall>rel \<in> set (files_below (files w7) ?up).
            \<exists>c. fmlookup (files w7) (?up @ rel) = Some (File c)
              \<and> fmlookup (objects w') (?i # rel) = Some c" and
    tr: "\<exists>cs. calls w5 = calls w7 @ cs
            \<and> list_all2 (\<lambda>cl rel. \<exists>c. cl = CallUpload (?i # rel) c True) cs
                 (filter (\<lambda>rel. rel \<noteq> [?mf]) (files_below (files w7) ?up) @ [[?mf]])"
    unfolding Let_def l by auto
  have data: "\<exists>c. fmlookup (files w) (dir s @ [?i, ?ch, fn]) = Some (File c)
             \<and> fmlookup (objects w') [?i, ?ch, fn] = Some c"
    if "fn \<in> set (children (files w) (dir s @ [?i, ?ch]))" for fn
  proof -
    from that chunks kids obtain c where
      c: "fmlookup (files w4) (dir s @ [?i, ?ch, fn]) = Some (File c)"
        "fmlookup (files w7) (?up @ [?ch, fn]) = Some (File c)" by auto
    then have "[?ch, fn] \<in> set (files_below (files w7) ?up)"
      by (simp add: files_below_set is_file_def)
    with all c(2) have "fmlookup (objects w') [?i, ?ch, fn] = Some c" by fastforce
    with c(1) keep [of "[?ch, fn]"] show ?thesis by simp
  qed
  have idx: "\<exists>c. fmlookup (files w) (dir s @ [?i, ?ix]) = Some (File c)
          \<and> fmlookup (objects w') [?i, ?ix] = Some c"
  proof -
    from index obtain c where
      c: "fmlookup (files w4) (dir s @ [?i, ?ix]) = Some (File c)"
        "fmlookup (files w7) (?up @ [?ix]) = Some (File c)" by auto
    then have "[?ix] \<in> set (files_below (files w7) ?up)"
      by (simp add: files_below_set is_file_def)
    with all c(2) have "fmlookup (objects w') [?i, ?ix] = Some c" by fastforce
    with c(1) keep [of "[?ix]"] show ?thesis by simp
  qed
  have trace: "\<exists>cs c. calls w' = calls w @ CallExists [?i, ?mf] # cs @ [CallUpload [?i, ?mf] c True]
          \<and> (\<forall>cl \<in> set cs. \<exists>name c'. cl = CallUpload name c' True \<and> name \<noteq> [?i, ?mf])"
  proof -
    let ?others = "filter (\<lambda>rel. rel \<noteq> [?mf]) (files_below (files w7) ?up)"
    let ?P = "\<lambda>cl rel. \<exists>c. cl = CallUpload (?i # rel) c True"
    from tr obtain cs0 where cs0: "calls w5 = calls w7 @ cs0" "list_all2 ?P cs0 (?others @ [[?mf]])"
      by blast
    from cs0(2) obtain cs cl where split: "cs0 = cs @ [cl]" "list_all2 ?P cs ?others" "?P cl [?mf]"
      by (auto simp: list_all2_append2 list_all2_Cons2)
    from split(3) obtain c where c: "cl = CallUpload [?i, ?mf] c True" by auto
    have "\<exists>name c'. x = CallUpload name c' True \<and> name \<noteq> [?i, ?mf]" if "x \<in> set cs" for x
    proof -
      from list_all2_in_set1 [OF split(2) that] obtain rel where "rel \<in> set ?others" "?P x rel"
        by blast
      then show ?thesis by auto
    qed
    with cs0(1) split(1) c o'(2) o7'(2) show ?thesis by auto
  qed
  from data idx res(1) ok5 trace show ?thesis by blast
qed

theorem sync_uploads_manifest_last_witness:
  "sync ex_deps ex_shipper B1 ex_world = (Inr (), ex_world_uploaded)
   \<and> ULID_String ex_deps (ULID B1) \<noteq> ''thanos''
   \<and> block_MetaFilename ex_deps \<noteq> block_ChunksDirname ex_deps
   \<and> block_MetaFilename ex_deps \<noteq> block_IndexFilename ex_deps
   \<and> block_IndexFilename ex_deps \<noteq> block_MetaFilename ex_deps @ ''.tmp''
   \<and> [''B1'', ''meta.json''] |\<notin>| fmdom (objects ex_world)
   \<and> [''B1'', ''meta.json''] |\<in>| fmdom (objects ex_world_uploaded)
   \<and> children (files ex_world) [''data'', ''B1'', ''chunks''] = [''000001'']
   \<and> (\<exists>c. fmlookup (files ex_world) [''data'', ''B1'', ''chunks'', ''000001''] = Some (File c)
         \<and> fmlookup (objects ex_world_uploaded) [''B1'', ''chunks'', ''000001''] = Some c)
   \<and> (\<exists>c. fmlookup (files ex_world) [''data'', ''B1'', ''index''] = Some (File c)
         \<and> fmlookup (objects ex_world_uploaded) [''B1'', ''index''] = Some c)
   \<and> calls ex_world_uploaded
       = [CallExists [''B1'', ''meta.json''],
          CallUpload [''B1'', ''chunks'', ''000001''] (Bytes ''c1'') True,
          CallUpload [''B1'', ''index''] (Bytes ''i1'') True,
          CallUpload [''B1'', ''meta.json'']
            (BlockMetaJSON
               (B1\<lparr>Thanos_Labels := [(''replica'', ''a'')], Thanos_Source := ''sidecar''\<rparr>))
            True]"
proof -
  have n: "ULID_String ex_deps (ULID B1) = ''B1''" "block_MetaFilename ex_deps = ''meta.json''"
    "block_ChunksDirname ex_deps = ''chunks''" "block_IndexFilename ex_deps = ''index''"
    "dir ex_shipper = [''data'']"
    by (simp_all add: ex_deps_def B1_def ex_shipper_def)
  have a: "sync ex_deps ex_shipper B1 ex_world = (Inr (), ex_world_uploaded)"
    by code_simp
  have b: "ULID_String ex_deps (ULID B1) \<noteq> ''thanos''"
    "block_MetaFilename ex_deps \<noteq> block_ChunksDirname ex_deps"
    "block_MetaFilename ex_deps \<noteq> block_IndexFilename ex_deps"
    "block_IndexFilename ex_deps \<noteq> block_MetaFilename ex_deps @ ''.tmp''"
    by (simp_all add: n)
  have c: "[ULID_String ex_deps (ULID B1), block_MetaFilename ex_deps] |\<notin>| fmdom (objects ex_world)"
    by code_simp
  have d: "[ULID_String ex_deps (ULID B1), block_MetaFilename ex_deps]
             |\<in>| fmdom (objects ex_world_uploaded)"
    by code_simp
  have k: "children (files ex_world) [''data'', ''B1'', ''chunks''] = [''000001'']"
    by code_simp
  have t: "calls ex_world_uploaded
       = [CallExists [''B1'', ''meta.json''],
          CallUpload [''B1'', ''chunks'', ''000001''] (Bytes ''c1'') True,
          CallUpload [''B1'', ''index''] (Bytes ''i1'') True,
          CallUpload [''B1'', ''meta.json'']
            (BlockMetaJSON
               (B1\<lparr>Thanos_Labels := [(''replica'', ''a'')], Thanos_Source := ''sidecar''\<rparr>))
            True]"
    by code_simp
  from sync_uploads_manifest_last [OF a b c d] k
  have "(\<exists>c. fmlookup (files ex_world) [''data'', ''B1'', ''chunks'', ''000001''] = Some (File c)
         \<and> fmlookup (objects ex_world_uploaded) [''B1'', ''chunks'', ''000001''] = Some c)
     \<and> (\<exists>c. fmlookup (files ex_world) [''data'', ''B1'', ''index''] = Some (File c)
         \<and> fmlookup (objects ex_world_uploaded) [''B1'', ''index''] = Some c)"
    unfolding n by simp
  with a b c d k t show ?thesis unfolding n by simp
qed

end
